theory Spec2Isabelle
  imports Complex_Main "HOL-Library.Word"
begin

unbundle bit_operations_syntax

section \<open>Box geometry (model.py: bbox\_iou, wh\_iou)\<close>

text \<open>
  Tensor elements are modelled as real numbers; rounding of 32-bit floats is not part of
  the model.  A box is the four numbers of one column of the 4 x n tensors that
  \<open>bbox_iou\<close> works on: every operation of \<open>bbox_iou\<close> is elementwise over n, so
  its terms are given for one pair of boxes.  Of \<open>bbox_iou\<close> the terms that divide are
  modelled: the union, the convex area and diagonal, and the widths and heights.
\<close>

type_synonym box = "real \<times> real \<times> real \<times> real"

definition eps16 :: real where
  "eps16 = 1 / 10 ^ 16"

text \<open>The corner coordinates (x1, y1, x2, y2) that \<open>bbox_iou\<close> computes first.\<close>

definition corners :: "bool \<Rightarrow> box \<Rightarrow> box" where
  "corners x1y1x2y2 b =
     (case b of (b0, b1, b2, b3) \<Rightarrow>
        if x1y1x2y2 then (b0, b1, b2, b3)
        else (b0 - b2 / 2, b1 - b3 / 2, b0 + b2 / 2, b1 + b3 / 2))"

definition inter_area :: "box \<Rightarrow> box \<Rightarrow> real" where
  "inter_area c1 c2 =
     (case c1 of (b1_x1, b1_y1, b1_x2, b1_y2) \<Rightarrow>
      case c2 of (b2_x1, b2_y1, b2_x2, b2_y2) \<Rightarrow>
        max 0 (min b1_x2 b2_x2 - max b1_x1 b2_x1) * max 0 (min b1_y2 b2_y2 - max b1_y1 b2_y1))"

definition union_area :: "box \<Rightarrow> box \<Rightarrow> real" where
  "union_area c1 c2 =
     (case c1 of (b1_x1, b1_y1, b1_x2, b1_y2) \<Rightarrow>
      case c2 of (b2_x1, b2_y1, b2_x2, b2_y2) \<Rightarrow>
        let w1 = b1_x2 - b1_x1; h1 = b1_y2 - b1_y1;
            w2 = b2_x2 - b2_x1; h2 = b2_y2 - b2_y1
        in (w1 * h1 + eps16) + w2 * h2 - inter_area c1 c2)"

definition convex_w :: "box \<Rightarrow> box \<Rightarrow> real" where
  "convex_w c1 c2 =
     (case c1 of (b1_x1, b1_y1, b1_x2, b1_y2) \<Rightarrow>
      case c2 of (b2_x1, b2_y1, b2_x2, b2_y2) \<Rightarrow> max b1_x2 b2_x2 - min b1_x1 b2_x1)"

definition convex_h :: "box \<Rightarrow> box \<Rightarrow> real" where
  "convex_h c1 c2 =
     (case c1 of (b1_x1, b1_y1, b1_x2, b1_y2) \<Rightarrow>
      case c2 of (b2_x1, b2_y1, b2_x2, b2_y2) \<Rightarrow> max b1_y2 b2_y2 - min b1_y1 b2_y1)"

definition c_area :: "box \<Rightarrow> box \<Rightarrow> real" where
  "c_area c1 c2 = convex_w c1 c2 * convex_h c1 c2 + eps16"

definition c2_diag :: "box \<Rightarrow> box \<Rightarrow> real" where
  "c2_diag c1 c2 = (convex_w c1 c2)\<^sup>2 + (convex_h c1 c2)\<^sup>2 + eps16"

text \<open>The two denominators of the aspect-ratio term of the CIoU branch: h2 and h1.\<close>

definition box_w :: "box \<Rightarrow> real" where
  "box_w c = (case c of (x1, y1, x2, y2) \<Rightarrow> x2 - x1)"

definition box_h :: "box \<Rightarrow> real" where
  "box_h c = (case c of (x1, y1, x2, y2) \<Rightarrow> y2 - y1)"

text \<open>
  \<open>wh_iou\<close>: \<open>wh1\<close> is n x 2, \<open>wh2\<close> is m x 2, the result the n x m matrix of
  \<open>inter / (area1 + area2 - inter)\<close>.
\<close>

type_synonym wh = "real \<times> real"

definition wh_prod :: "wh \<Rightarrow> real" where
  "wh_prod a = fst a * snd a"

definition wh_inter :: "wh \<Rightarrow> wh \<Rightarrow> real" where
  "wh_inter a b = min (fst a) (fst b) * min (snd a) (snd b)"

definition wh_iou_denominator :: "wh \<Rightarrow> wh \<Rightarrow> real" where
  "wh_iou_denominator a b = wh_prod a + wh_prod b - wh_inter a b"

text \<open>
  The quotient has no guard, so it is kept with the values that a float division gives on
  a zero denominator: not-a-number for 0/0, an infinity otherwise (the sign of a zero
  is not modelled).  A comparison with not-a-number is false.
\<close>

datatype quotient = Finite real | PosInf | NegInf | NaN

definition fdiv :: "real \<Rightarrow> real \<Rightarrow> quotient" where
  "fdiv x y =
     (if y \<noteq> 0 then Finite (x / y) else if 0 < x then PosInf else if x < 0 then NegInf else NaN)"

fun quotient_gt :: "quotient \<Rightarrow> real \<Rightarrow> bool" where
  "quotient_gt (Finite v) t = (t < v)"
| "quotient_gt PosInf t = True"
| "quotient_gt NegInf t = False"
| "quotient_gt NaN t = False"

definition wh_iou1 :: "wh \<Rightarrow> wh \<Rightarrow> quotient" where
  "wh_iou1 a b = fdiv (wh_inter a b) (wh_iou_denominator a b)"

definition wh_iou :: "wh list \<Rightarrow> wh list \<Rightarrow> quotient list list" where
  "wh_iou wh1 wh2 = map (\<lambda>a. map (\<lambda>b. wh_iou1 a b) wh2) wh1"

text \<open>A box in corner form is well formed when its corners are ordered.\<close>

definition ordered_box :: "box \<Rightarrow> bool" where
  "ordered_box c = (case c of (x1, y1, x2, y2) \<Rightarrow> x1 \<le> x2 \<and> y1 \<le> y2)"

section \<open>Python and torch basics\<close>

datatype error =
    AssertionError | IndexError | KeyError | TypeError | AttributeError | RuntimeError
  | ValueError

text \<open>
  \<open>Tensor.long()\<close> on a float: truncation toward zero into a signed 64-bit integer.  A
  value outside the range of that type has no defined conversion in C; the conversion
  instruction of x86-64, which the CPU kernels compile to, gives the most negative
  integer for it, and that is what is modelled.
\<close>

definition in_int64 :: "int \<Rightarrow> bool" where
  "in_int64 n \<longleftrightarrow> - (2 ^ 63) \<le> n \<and> n < 2 ^ 63"

definition long :: "real \<Rightarrow> int" where
  "long r =
     (let t = (if 0 \<le> r then \<lfloor>r\<rfloor> else \<lceil>r\<rceil>)
      in if in_int64 t then t else - (2 ^ 63))"

text \<open>\<open>Tensor.clamp_(lo, hi)\<close>: \<open>min(max(x, lo), hi)\<close>, which is \<open>hi\<close> when \<open>hi < lo\<close>.\<close>

definition clamp :: "int \<Rightarrow> int \<Rightarrow> int \<Rightarrow> int" where
  "clamp lo hi x = min (max x lo) hi"

section \<open>Target assignment (model.py: build\_targets)\<close>

text \<open>
  One row of \<open>targets\<close>: (image, class, x, y, w, h).  Of a prediction tensor
  \<open>p[i]\<close> only the shape (bs, na, ny, nx, no) is read.  Of the model, \<open>build_targets\<close>
  reads \<open>module_list[j].anchor_vec\<close> for each \<open>j\<close> in \<open>yolo_layers\<close> (kept here as one
  list, in the order of \<open>yolo_layers\<close>), \<open>num_classes\<close>, and
  \<open>hyper_parameters_dict["iou_t"]\<close>.
\<close>

type_synonym target = "real \<times> real \<times> real \<times> real \<times> real \<times> real"

type_synonym pshape = "nat \<times> nat \<times> nat \<times> nat \<times> nat"

record model =
  anchor_vecs :: "wh list list"
  num_classes :: int
  iou_t :: real

text \<open>\<open>gain = [1, 1, nx, ny, nx, ny]\<close>, from \<open>p[i].shape[[3, 2, 3, 2]]\<close>.\<close>

definition gain_of :: "pshape \<Rightarrow> target" where
  "gain_of s = (case s of (bs, na, ny, nx, no) \<Rightarrow> (1, 1, real nx, real ny, real nx, real ny))"

definition mul_gain :: "target \<Rightarrow> target \<Rightarrow> target" where
  "mul_gain g t =
     (case g of (g0, g1, g2, g3, g4, g5) \<Rightarrow>
      case t of (t0, t1, t2, t3, t4, t5) \<Rightarrow> (t0 * g0, t1 * g1, t2 * g2, t3 * g3, t4 * g4, t5 * g5))"

definition gwh_of :: "target \<Rightarrow> wh" where
  "gwh_of t = (case t of (t0, t1, t2, t3, t4, t5) \<Rightarrow> (t4, t5))"

definition gxy_of :: "target \<Rightarrow> real \<times> real" where
  "gxy_of t = (case t of (t0, t1, t2, t3, t4, t5) \<Rightarrow> (t2, t3))"

definition image_of :: "target \<Rightarrow> int" where
  "image_of t = (case t of (t0, t1, t2, t3, t4, t5) \<Rightarrow> long t0)"

definition class_of :: "target \<Rightarrow> int" where
  "class_of t = (case t of (t0, t1, t2, t3, t4, t5) \<Rightarrow> long t1)"

text \<open>
  The filter \<open>a, t = at[j], t.repeat(na, 1, 1)[j]\<close> with the na x nt mask
  \<open>j = wh_iou(anchors, t[:, 4:6]) > iou_t\<close>: the pairs (anchor index, target row) whose
  mask entry is true, anchors outermost.  With no target at all (\<open>nt == 0\<close>) the code
  skips the filter and keeps \<open>a = []\<close> and the empty \<open>t\<close>.
\<close>

definition match_anchors :: "wh list \<Rightarrow> real \<Rightarrow> target list \<Rightarrow> (nat \<times> target) list" where
  "match_anchors anchors thr t =
     (if t = [] then []
      else let j = map (map (\<lambda>v. quotient_gt v thr)) (wh_iou anchors (map gwh_of t))
           in concat (map (\<lambda>(ai, row). map (\<lambda>(m, tk). (ai, tk)) (filter fst (zip row t)))
                          (zip [0..<length anchors] j)))"

text \<open>
  What one iteration appends: \<open>tcls\<close>, \<open>tbox\<close>, \<open>indices\<close> (one tuple
  (b, a, gj, gi) for each match) and \<open>anch\<close>.  \<open>clamp_\<close> works in place on the columns of
  \<open>gij\<close>, and runs before \<open>gxy - gij\<close> is computed, so the box offsets use the clamped
  cell.
\<close>

record assignment =
  tcls :: "int list"
  tbox :: "box list"
  indices :: "(int \<times> nat \<times> int \<times> int) list"
  anch :: "wh list"

definition assign_layer :: "wh list \<Rightarrow> pshape \<Rightarrow> real \<Rightarrow> target list \<Rightarrow> assignment" where
  "assign_layer anchors s thr targets =
     (let g = gain_of s;
          ms = match_anchors anchors thr (map (mul_gain g) targets);
          hi_x = long (fst (gxy_of g)) - 1;
          hi_y = long (snd (gxy_of g)) - 1;
          cell = (\<lambda>t. (clamp 0 hi_x (long (fst (gxy_of t))), clamp 0 hi_y (long (snd (gxy_of t)))))
      in \<lparr> tcls = map (\<lambda>(a, t). class_of t) ms,
           tbox = map (\<lambda>(a, t). (fst (gxy_of t) - real_of_int (fst (cell t)),
                                  snd (gxy_of t) - real_of_int (snd (cell t)),
                                  fst (gwh_of t), snd (gwh_of t))) ms,
           indices = map (\<lambda>(a, t). (image_of t, a, snd (cell t), fst (cell t))) ms,
           anch = map (\<lambda>(a, t). anchors ! a) ms \<rparr>)"

text \<open>
  The loop over \<open>enumerate(model.yolo_layers)\<close>: \<open>p[i]\<close> raises IndexError when there are
  fewer predictions than detection heads, and the assertion on the classes of the
  iteration runs after its results were appended.  \<open>c.max() < model.num_classes\<close>
  compares an int64 tensor with a Python integer, which torch converts to int64 first
  and refuses when it does not fit (with RuntimeError, "Overflow when unpacking long";
  later versions of torch raise OverflowError there).
\<close>

fun build_targets_loop ::
  "pshape list \<Rightarrow> target list \<Rightarrow> int \<Rightarrow> real \<Rightarrow> wh list list \<Rightarrow> error + assignment list" where
  "build_targets_loop p targets nc thr [] = Inr []"
| "build_targets_loop p targets nc thr (anchors # rest) =
     (case p of
        [] \<Rightarrow> Inl IndexError
      | s # p' \<Rightarrow>
          let r = assign_layer anchors s thr targets in
          if tcls r \<noteq> [] \<and> \<not> in_int64 nc then Inl RuntimeError
          else if tcls r \<noteq> [] \<and> \<not> Max (set (tcls r)) < nc then Inl AssertionError
          else (case build_targets_loop p' targets nc thr rest of
                  Inl e \<Rightarrow> Inl e
                | Inr rs \<Rightarrow> Inr (r # rs)))"

definition build_targets :: "pshape list \<Rightarrow> target list \<Rightarrow> model \<Rightarrow> error + assignment list" where
  "build_targets p targets m = build_targets_loop p targets (num_classes m) (iou_t m) (anchor_vecs m)"

section \<open>Weighted feature fusion (model.py: \_WeightedFeatureFusion)\<close>

definition sigmoid :: "real \<Rightarrow> real" where
  "sigmoid x = 1 / (1 + exp (- x))"

text \<open>\<open>xs[i]\<close> on a Python list: \<open>i\<close> from \<open>-len(xs)\<close> to \<open>len(xs) - 1\<close>, else IndexError.\<close>

definition py_index :: "'a list \<Rightarrow> int \<Rightarrow> error + 'a" where
  "py_index xs i =
     (if 0 \<le> i \<and> i < int (length xs) then Inr (xs ! nat i)
      else if i < 0 \<and> - int (length xs) \<le> i then Inr (xs ! nat (int (length xs) + i))
      else Inl IndexError)"

text \<open>Indexing a one-dimensional tensor with a non-negative index.\<close>

definition tensor_index :: "'a list \<Rightarrow> nat \<Rightarrow> error + 'a" where
  "tensor_index xs i = (if i < length xs then Inr (xs ! i) else Inl IndexError)"

text \<open>
  A feature map is modelled along its channel axis (dimension 1): the list of its
  channels.  A channel stands for everything on the remaining axes (batch, height, width),
  an element of a real vector space; the remaining axes of the running tensor and of the
  sources are taken to agree, as they do for the shortcut layers of the darknet
  configurations.  \<open>x.shape[1]\<close> is the length of the list, \<open>x[:, :k]\<close> is \<open>take k x\<close>.

  \<open>outputs\<close> is the rolling list of \<open>forward_once\<close>.  An entry is the placeholder \<open>[]\<close>
  of a layer whose routing flag is off, or a tensor.  \<open>forward_once\<close> appends the very
  tensor that it passes on as \<open>x\<close>, so an entry can be the object that \<open>forward\<close> receives
  as its argument: \<open>Argument\<close> stands for that object, \<open>Stored\<close> for any other tensor.
\<close>

datatype 'a entry = Placeholder | Stored "'a list" | Argument

text \<open>The tensor that an entry holds when it is read, \<open>arg\<close> being the argument object then.\<close>

fun as_read :: "'a list \<Rightarrow> 'a entry \<Rightarrow> 'a list" where
  "as_read arg (Stored t) = t"
| "as_read arg Argument = arg"
| "as_read arg Placeholder = []"

text \<open>
  The local variable \<open>x\<close> is bound to the argument object until an assignment
  \<open>x = ...\<close> binds it to a new tensor.
\<close>

datatype 'a binding = Caller | Fresh "'a list"

fun bound :: "'a list \<Rightarrow> 'a binding \<Rightarrow> 'a list" where
  "bound arg Caller = arg"
| "bound arg (Fresh t) = t"

record fusion =
  layers :: "int list"
  weight :: bool
  w :: "real list"

definition fusion_n :: "fusion \<Rightarrow> nat" where
  "fusion_n f = length (layers f) + 1"

text \<open>
  The channel adjustment of one source \<open>a\<close>.  The state is the content of the argument
  object and the binding of \<open>x\<close>: \<open>x = x + a\<close> binds \<open>x\<close> to a new tensor, and
  \<open>x[:, :na] = x[:, :na] + a\<close> writes into the tensor that \<open>x\<close> is bound to, which is the
  argument object as long as no assignment came before.
\<close>

definition fusion_step ::
  "nat \<Rightarrow> ('a::real_vector) list \<Rightarrow> 'a list \<times> 'a binding \<Rightarrow> 'a list \<times> 'a binding" where
  "fusion_step nx a st =
     (case st of (arg, x) \<Rightarrow>
        let na = length a; xv = bound arg x in
        if nx = na then (arg, Fresh (map2 (+) xv a))
        else if nx > na then
          (case x of
             Caller \<Rightarrow> (map2 (+) (take na xv) a @ drop na xv, Caller)
           | Fresh t \<Rightarrow> (arg, Fresh (map2 (+) (take na xv) a @ drop na xv)))
        else (arg, Fresh (map2 (+) xv (take nx a))))"

text \<open>
  The loop \<open>for i in range(self.n - 1)\<close>, over the entries \<open>layers[i]\<close> with their index
  \<open>i\<close>.  \<open>sw\<close> is the vector \<open>sigmoid(self.w) * (2 / self.n)\<close>.  A placeholder source
  raises: TypeError from the product with \<open>w[i + 1]\<close>, AttributeError from \<open>a.shape\<close>
  when no weights are used.
\<close>

fun fusion_loop ::
  "bool \<Rightarrow> real list \<Rightarrow> ('a::real_vector) entry list \<Rightarrow> nat \<Rightarrow> int list \<Rightarrow> nat
     \<Rightarrow> 'a list \<times> 'a binding \<Rightarrow> error + ('a list \<times> 'a list)" where
  "fusion_loop wt sw outputs nx [] i (arg, x) = Inr (bound arg x, arg)"
| "fusion_loop wt sw outputs nx (l # ls) i (arg, x) =
     (case py_index outputs l of
        Inl e \<Rightarrow> Inl e
      | Inr src \<Rightarrow>
          (case (if wt then
                   (case tensor_index sw (i + 1) of
                      Inl e \<Rightarrow> Inl e
                    | Inr s \<Rightarrow> (case src of Placeholder \<Rightarrow> Inl TypeError
                                 | _ \<Rightarrow> Inr (map (\<lambda>v. s *\<^sub>R v) (as_read arg src))))
                 else (case src of Placeholder \<Rightarrow> Inl AttributeError
                       | _ \<Rightarrow> Inr (as_read arg src))) of
             Inl e \<Rightarrow> Inl e
           | Inr a \<Rightarrow> fusion_loop wt sw outputs nx ls (i + 1) (fusion_step nx a (arg, x))))"

text \<open>
  \<open>forward\<close> returns the result and leaves the argument object as the second component
  shows it.  With weights \<open>x = x * w[0]\<close> binds \<open>x\<close> to a new tensor at once.
\<close>

definition fusion_forward ::
  "fusion \<Rightarrow> ('a::real_vector) list \<Rightarrow> 'a entry list \<Rightarrow> error + ('a list \<times> 'a list)" where
  "fusion_forward f x outputs =
     (if weight f then
        let sw = map (\<lambda>v. sigmoid v * (2 / real (fusion_n f))) (w f) in
        (case tensor_index sw 0 of
           Inl e \<Rightarrow> Inl e
         | Inr s0 \<Rightarrow>
             let x' = map (\<lambda>v. s0 *\<^sub>R v) x in
             fusion_loop True sw outputs (length x') (layers f) 0 (x, Fresh x'))
      else fusion_loop False [] outputs (length x) (layers f) 0 (x, Caller))"

text \<open>
  The factor applied to source \<open>k\<close> (0 is the running tensor itself), and the share of
  one source in channel \<open>c\<close> of the result.
\<close>

definition fusion_scale :: "fusion \<Rightarrow> nat \<Rightarrow> real" where
  "fusion_scale f k = (if weight f then sigmoid (w f ! k) * (2 / real (fusion_n f)) else 1)"

definition contrib :: "real \<Rightarrow> ('a::real_vector) list \<Rightarrow> nat \<Rightarrow> 'a" where
  "contrib s a c = (if c < length a then s *\<^sub>R (a ! c) else 0)"

text \<open>
  The sources that are written into the argument object: without weights, the leading
  sources with fewer channels than \<open>x\<close>, up to the first assignment \<open>x = ...\<close>.
\<close>

definition written :: "bool \<Rightarrow> nat \<Rightarrow> 'a entry list \<Rightarrow> 'a entry list" where
  "written wt nx srcs =
     (if wt then []
      else takeWhile (\<lambda>s. case s of Stored t \<Rightarrow> length t < nx | _ \<Rightarrow> False) srcs)"
section \<open>Detection head (model.py: \_YOLOLayer)\<close>

text \<open>
  A tensor is its shape and its element function; the elements outside the shape are not
  read.  \<open>view\<close> keeps the row-major (contiguous) order of the elements: it goes through
  the flat index.
\<close>

record tensor2 =
  shape2 :: "nat \<times> nat"
  elem2 :: "nat \<Rightarrow> nat \<Rightarrow> real"

record tensor3 =
  shape3 :: "nat \<times> nat \<times> nat"
  elem3 :: "nat \<Rightarrow> nat \<Rightarrow> nat \<Rightarrow> real"

record tensor4 =
  shape4 :: "nat \<times> nat \<times> nat \<times> nat"
  elem4 :: "nat \<Rightarrow> nat \<Rightarrow> nat \<Rightarrow> nat \<Rightarrow> real"

record tensor5 =
  shape5 :: "nat \<times> nat \<times> nat \<times> nat \<times> nat"
  elem5 :: "nat \<Rightarrow> nat \<Rightarrow> nat \<Rightarrow> nat \<Rightarrow> nat \<Rightarrow> real"

definition numel4 :: "tensor4 \<Rightarrow> nat" where
  "numel4 t = (case shape4 t of (d0, d1, d2, d3) \<Rightarrow> d0 * d1 * d2 * d3)"

text \<open>Element \<open>i\<close> of the flattened 4-d tensor.\<close>

definition flat4 :: "tensor4 \<Rightarrow> nat \<Rightarrow> real" where
  "flat4 t i =
     (case shape4 t of (d0, d1, d2, d3) \<Rightarrow>
        elem4 t (i div (d1 * d2 * d3)) ((i div (d2 * d3)) mod d1) ((i div d3) mod d2) (i mod d3))"

text \<open>
  \<open>self.grid\<close>: a tensor of shape (1, 1, ny, nx, 2), kept with its two sizes and, for
  each row and column, the pair of its last axis.
\<close>

record grid =
  g_nx :: nat
  g_ny :: nat
  g_xy :: "(real \<times> real) list list"

text \<open>
  The state of a detection head.  \<open>y_anchors\<close> are the anchors in pixels, \<open>y_grid\<close> is
  \<open>self.grid\<close>, which is \<open>None\<close> until \<open>create_grids\<close> runs outside training mode.
\<close>

record yolo_layer =
  y_anchors :: "wh list"
  y_stride :: nat
  y_classes :: nat
  y_nx :: nat
  y_ny :: nat
  y_grid :: "grid option"
  y_training :: bool
  y_onnx_export :: bool

definition y_na :: "yolo_layer \<Rightarrow> nat" where
  "y_na l = length (y_anchors l)"

definition num_classes_output :: "yolo_layer \<Rightarrow> nat" where
  "num_classes_output l = y_classes l + 5"

definition anchor_vec :: "yolo_layer \<Rightarrow> wh list" where
  "anchor_vec l = map (\<lambda>(w, h). (w / real (y_stride l), h / real (y_stride l))) (y_anchors l)"

text \<open>
  \<open>torch.stack((xv, yv), 2).view((1, 1, ny, nx, 2))\<close> of the mesh of \<open>arange(ny)\<close> and
  \<open>arange(nx)\<close>: the cell in row y and column x holds (x, y).
\<close>

definition meshgrid :: "nat \<Rightarrow> nat \<Rightarrow> grid" where
  "meshgrid nx ny =
     \<lparr> g_nx = nx, g_ny = ny, g_xy = map (\<lambda>y. map (\<lambda>x. (real x, real y)) [0..<nx]) [0..<ny] \<rparr>"

text \<open>
  \<open>io[..., :2] = torch.sigmoid(io[..., :2]) + self.grid\<close> broadcasts the grid over the
  batch and the anchors, and over the rows or the columns when the grid has one row or one
  column; a grid of any other size than the tensor's cannot be added and written back
  (RuntimeError).  \<open>grid_at\<close> is the pair that the sum reads for the cell (y, x).
\<close>

definition broadcasts :: "grid \<Rightarrow> nat \<Rightarrow> nat \<Rightarrow> bool" where
  "broadcasts g ny nx \<longleftrightarrow> (g_ny g = ny \<or> g_ny g = 1) \<and> (g_nx g = nx \<or> g_nx g = 1)"

definition grid_at :: "grid \<Rightarrow> nat \<Rightarrow> nat \<Rightarrow> real \<times> real" where
  "grid_at g y x = g_xy g ! (if g_ny g = 1 then 0 else y) ! (if g_nx g = 1 then 0 else x)"

text \<open>
  \<open>self.grid.repeat(1, self.na, 1, 1, 1).view(m, 2)\<close>, row \<open>i\<close>: the rows run over the
  anchors, the rows of the grid and its columns.
\<close>

definition grid_row :: "grid \<Rightarrow> nat \<Rightarrow> real \<times> real" where
  "grid_row g i = g_xy g ! ((i div g_nx g) mod g_ny g) ! (i mod g_nx g)"

definition create_grids :: "yolo_layer \<Rightarrow> nat \<times> nat \<Rightarrow> yolo_layer" where
  "create_grids l ng =
     (case ng of (nx, ny) \<Rightarrow>
        l\<lparr> y_nx := nx, y_ny := ny,
           y_grid := (if \<not> y_training l then Some (meshgrid nx ny) else y_grid l) \<rparr>)"

text \<open>
  \<open>__init__\<close>: a new module is in training mode; for the ONNX export it leaves training
  mode and builds its grid from the image size at once.
\<close>

definition yolo_init :: "wh list \<Rightarrow> nat \<Rightarrow> nat \<times> nat \<Rightarrow> nat \<Rightarrow> bool \<Rightarrow> yolo_layer" where
  "yolo_init anchors nc image_size stride onnx =
     (let l = \<lparr> y_anchors = anchors, y_stride = stride, y_classes = nc, y_nx = 0, y_ny = 0,
                y_grid = None, y_training = True, y_onnx_export = onnx \<rparr>
      in if onnx then create_grids (l\<lparr> y_training := False \<rparr>)
                                   (snd image_size div stride, fst image_size div stride)
         else l)"

text \<open>The three results of \<open>forward\<close>: training, ONNX export, inference.\<close>

datatype yolo_out =
    Training tensor5
  | Export tensor2 tensor2 tensor2
  | Inference tensor3 tensor5

text \<open>
  \<open>p.view(bs, na, no, ny, nx).permute(0, 1, 3, 4, 2).contiguous()\<close>: element
  (b, a, y, x, k) of the result is element (b, a, k, y, x) of the view.
\<close>

definition view_permute :: "tensor4 \<Rightarrow> nat \<Rightarrow> nat \<Rightarrow> nat \<Rightarrow> nat \<Rightarrow> nat \<Rightarrow> tensor5" where
  "view_permute p bs na no ny nx =
     \<lparr> shape5 = (bs, na, ny, nx, no),
       elem5 = (\<lambda>b a y x k. flat4 p ((((b * na + a) * no + k) * ny + y) * nx + x)) \<rparr>"

text \<open>The decoded value of attribute \<open>k\<close> at (b, a, y, x) in inference mode.\<close>

definition decode_elem ::
  "yolo_layer \<Rightarrow> (nat \<Rightarrow> nat \<Rightarrow> real \<times> real) \<Rightarrow> tensor5 \<Rightarrow> nat \<Rightarrow> nat \<Rightarrow> nat \<Rightarrow> nat \<Rightarrow> nat \<Rightarrow> real" where
  "decode_elem l g r b a y x k =
     (if k < 2 then
        (sigmoid (elem5 r b a y x k) + (if k = 0 then fst (g y x) else snd (g y x)))
          * real (y_stride l)
      else if k < 4 then
        exp (elem5 r b a y x k)
          * (if k = 2 then fst (anchor_vec l ! a) else snd (anchor_vec l ! a))
          * real (y_stride l)
      else sigmoid (elem5 r b a y x k))"

text \<open>
  The export branch works on the rows \<open>r = (a * ny + y) * nx + x\<close> of
  \<open>p.view(m, no)\<close>; it alone multiplies the class scores by the objectness.
\<close>

definition export_out :: "yolo_layer \<Rightarrow> (nat \<Rightarrow> real \<times> real) \<Rightarrow> tensor5 \<Rightarrow> yolo_out" where
  "export_out l g r =
     (let na = y_na l; nx = y_nx l; ny = y_ny l; no = num_classes_output l;
          m = na * nx * ny;
          row = (\<lambda>i k. elem5 r 0 (i div (ny * nx)) ((i div nx) mod ny) (i mod nx) k);
          ng = (\<lambda>k. 1 / (if k = 0 then real nx else real ny));
          grid = (\<lambda>i k. if k = 0 then fst (g i) else snd (g i));
          anchor_wh = (\<lambda>i k. (if k = 0 then fst (anchor_vec l ! (i div (nx * ny)))
                               else snd (anchor_vec l ! (i div (nx * ny)))) * ng k);
          p_cls = (if y_classes l = 1
                   then \<lparr> shape2 = (m, 1), elem2 = (\<lambda>i k. sigmoid (row i 4)) \<rparr>
                   else \<lparr> shape2 = (m, no - 5),
                          elem2 = (\<lambda>i k. sigmoid (row i (5 + k)) * sigmoid (row i 4)) \<rparr>)
      in Export p_cls
           \<lparr> shape2 = (m, 2), elem2 = (\<lambda>i k. (sigmoid (row i k) + grid i k) * ng k) \<rparr>
           \<lparr> shape2 = (m, 2), elem2 = (\<lambda>i k. exp (row i (2 + k)) * anchor_wh i k) \<rparr>)"

text \<open>
  \<open>forward\<close>.  The view raises RuntimeError when the element counts differ; without a
  grid the inference branch fails on \<open>+ self.grid\<close> (TypeError) and the export branch on
  \<open>self.grid.repeat\<close> (AttributeError); a grid that does not fit raises RuntimeError, in
  the inference branch at the sum and in the export branch at \<open>view(m, 2)\<close>;
  \<open>io.view(bs, -1, no)\<close> cannot infer the middle size of an empty batch (RuntimeError).
\<close>

definition yolo_forward :: "yolo_layer \<Rightarrow> tensor4 \<Rightarrow> error + (yolo_layer \<times> yolo_out)" where
  "yolo_forward l p =
     (case shape4 p of (bs0, ch, ny0, nx0) \<Rightarrow>
      let l1 = (if y_onnx_export l then l
                else if (y_nx l, y_ny l) \<noteq> (nx0, ny0) then create_grids l (nx0, ny0) else l);
          bs = (if y_onnx_export l then 1 else bs0);
          na = y_na l1; no = num_classes_output l1; ny = y_ny l1; nx = y_nx l1
      in if numel4 p \<noteq> bs * na * no * ny * nx then Inl RuntimeError
         else
           let r = view_permute p bs na no ny nx in
           if y_training l1 then Inr (l1, Training r)
           else if y_onnx_export l1 then
             (case y_grid l1 of
                None \<Rightarrow> Inl AttributeError
              | Some g \<Rightarrow>
                  if na * g_ny g * g_nx g \<noteq> na * nx * ny then Inl RuntimeError
                  else Inr (l1, export_out l1 (grid_row g) r))
           else
             (case y_grid l1 of
                None \<Rightarrow> Inl TypeError
              | Some g \<Rightarrow>
                  if \<not> broadcasts g ny nx then Inl RuntimeError
                  else if bs = 0 then Inl RuntimeError
                  else Inr (l1, Inference
                         \<lparr> shape3 = (bs, na * ny * nx, no),
                           elem3 = (\<lambda>b i k. decode_elem l1 (grid_at g) r b
                                      (i div (ny * nx)) ((i div nx) mod ny) (i mod nx) k) \<rparr>
                         r)))"

text \<open>Element (b, i, k) of the decoded inference output, when \<open>forward\<close> returns one.\<close>

definition decoded :: "error + (yolo_layer \<times> yolo_out) \<Rightarrow> nat \<Rightarrow> nat \<Rightarrow> nat \<Rightarrow> real option" where
  "decoded res b i k =
     (case res of
        Inr (l, Inference io r) \<Rightarrow> Some (elem3 io b i k)
      | _ \<Rightarrow> None)"

text \<open>The class scores of the export result, when \<open>forward\<close> returns one.\<close>

definition exported_cls :: "error + (yolo_layer \<times> yolo_out) \<Rightarrow> nat \<Rightarrow> nat \<Rightarrow> real option" where
  "exported_cls res i k =
     (case res of
        Inr (l, Export p_cls xy twh) \<Rightarrow> Some (elem2 p_cls i k)
      | _ \<Rightarrow> None)"

section \<open>Layer specifications and modules (model.py: parse\_model\_config, torch.nn)\<close>

text \<open>
  A LayerSpec is the dict of one configuration block.  \<open>parse_model_config\<close> stores
  under string keys an int (a value that \<open>isnumeric\<close>), a list of ints (\<open>from\<close>,
  \<open>layers\<close>, \<open>mask\<close>, a \<open>size\<close> with a comma), the n x 2 array of the anchors, or else
  the string itself.  Keys are kept as Python objects, since the code also looks up an
  int key.
\<close>

datatype pykey = KStr string | KInt int

datatype pyval = VInt int | VStr string | VInts "int list" | VAnchors "(real \<times> real) list"

type_synonym layer_spec = "(pykey \<times> pyval) list"

definition getitem :: "layer_spec \<Rightarrow> pykey \<Rightarrow> error + pyval" where
  "getitem d k = (case map_of d k of None \<Rightarrow> Inl KeyError | Some v \<Rightarrow> Inr v)"

definition contains :: "layer_spec \<Rightarrow> pykey \<Rightarrow> bool" where
  "contains d k = (map_of d k \<noteq> None)"

text \<open>Every key of the dict is a string, as in all output of \<open>parse_model_config\<close>.\<close>

definition str_keys :: "layer_spec \<Rightarrow> bool" where
  "str_keys d = list_all (\<lambda>kv. case fst kv of KStr s \<Rightarrow> True | KInt n \<Rightarrow> False) d"

text \<open>
  Truth value of a configuration value (\<open>if bn:\<close>, \<open>not bn\<close>, \<open>if module["pad"]\<close>); an
  array with more than one element has none (ValueError).
\<close>

definition truthy :: "pyval \<Rightarrow> error + bool" where
  "truthy v =
     (case v of
        VInt n \<Rightarrow> Inr (n \<noteq> 0)
      | VStr s \<Rightarrow> Inr (s \<noteq> [])
      | VInts ns \<Rightarrow> Inr (ns \<noteq> [])
      | VAnchors a \<Rightarrow> if a = [] then Inr False else Inl ValueError)"

text \<open>
  The torch modules that the builder creates, with the parameters that the weight files
  and the fusion read.  A parameter tensor is the list of its elements in storage order;
  \<open>'a\<close> is the element type (reals for the arithmetic, 32-bit patterns for the files).
  The fields of \<open>nn.Conv2d\<close> and \<open>nn.BatchNorm2d\<close> carry the prefixes \<open>c_\<close> and \<open>bn_\<close>.
\<close>

record 'a conv2d =
  c_in_channels :: nat
  c_out_channels :: nat
  c_kernel_size :: "nat \<times> nat"
  c_stride :: "nat \<times> nat"
  c_padding :: "nat \<times> nat"
  c_groups :: nat
  c_weight :: "'a list"
  c_bias :: "'a list option"

record 'a batchnorm2d =
  bn_num_features :: nat
  bn_eps :: real
  bn_bias :: "'a list"
  bn_weight :: "'a list"
  bn_running_mean :: "'a list"
  bn_running_var :: "'a list"

datatype 'a layer =
    Conv2d "'a conv2d"
  | BatchNorm2d "'a batchnorm2d"
  | LeakyReLU
  | Hardswish
  | Mish
  | ZeroPad2d
  | MaxPool2d nat nat nat
  | Upsample_scale int
  | Upsample_size "int \<times> int"
  | Dropout real

datatype 'a module =
    Sequential "'a layer list"
  | Single "'a layer"
  | FeatureConcat "int list"
  | WeightedFeatureFusion fusion
  | YOLOLayer yolo_layer

section \<open>Darknet weight files (model.py: load\_darknet\_weights, save\_darknet\_weights)\<close>

text \<open>
  The part of a \<open>Darknet\<close> object that the weight functions use.  \<open>module_define\<close> is
  the list of LayerSpecs after the builder removed the header, so that it runs parallel to
  \<open>module_list\<close>.  \<open>version\<close> and \<open>seen\<close> are the numpy arrays of int32 and int64.
\<close>

record 'a darknet =
  module_define :: "layer_spec list"
  module_list :: "'a module list"
  version :: "32 word list"
  seen :: "64 word list"

text \<open>The slice \<open>xs[:cutoff]\<close>.\<close>

definition slice_to :: "'a list \<Rightarrow> int \<Rightarrow> 'a list" where
  "slice_to xs cutoff =
     (if 0 \<le> cutoff then take (nat cutoff) xs else take (length xs - nat (- cutoff)) xs)"

text \<open>\<open>module[0]\<close>, \<open>module[1]\<close>: only an \<open>nn.Sequential\<close> can be indexed.\<close>

definition child :: "'a module \<Rightarrow> nat \<Rightarrow> error + 'a layer" where
  "child m i =
     (case m of
        Sequential ls \<Rightarrow> if i < length ls then Inr (ls ! i) else Inl IndexError
      | _ \<Rightarrow> Inl TypeError)"

definition is_convolutional :: "layer_spec \<Rightarrow> error + bool" where
  "is_convolutional d =
     (case getitem d (KStr ''type'') of Inl e \<Rightarrow> Inl e | Inr v \<Rightarrow> Inr (v = VStr ''convolutional''))"

definition batch_normalize :: "layer_spec \<Rightarrow> error + bool" where
  "batch_normalize d =
     (case getitem d (KStr ''batch_normalize'') of Inl e \<Rightarrow> Inl e | Inr v \<Rightarrow> truthy v)"

text \<open>
  What \<open>save_darknet_weights\<close> writes for one node: nothing unless the LayerSpec is a
  convolution; with batch normalisation the normalisation bias, weight, running mean and
  running variance and then the convolution weights, else the convolution bias and then
  the convolution weights.
\<close>

definition save_node :: "layer_spec \<Rightarrow> 'a module \<Rightarrow> error + 'a list" where
  "save_node d m =
     (case is_convolutional d of
        Inl e \<Rightarrow> Inl e
      | Inr False \<Rightarrow> Inr []
      | Inr True \<Rightarrow>
          (case child m 0 of
             Inl e \<Rightarrow> Inl e
           | Inr (Conv2d conv) \<Rightarrow>
               (case batch_normalize d of
                  Inl e \<Rightarrow> Inl e
                | Inr True \<Rightarrow>
                    (case child m 1 of
                       Inl e \<Rightarrow> Inl e
                     | Inr (BatchNorm2d bn) \<Rightarrow>
                         Inr (bn_bias bn @ bn_weight bn @ bn_running_mean bn @ bn_running_var bn
                              @ c_weight conv)
                     | Inr _ \<Rightarrow> Inl AttributeError)
                | Inr False \<Rightarrow>
                    (case c_bias conv of
                       None \<Rightarrow> Inl AttributeError
                     | Some b \<Rightarrow> Inr (b @ c_weight conv)))
           | Inr _ \<Rightarrow> Inl AttributeError))"

fun save_nodes :: "layer_spec list \<Rightarrow> 'a module list \<Rightarrow> error + 'a list" where
  "save_nodes (d # ds) (m # ms) =
     (case save_node d m of
        Inl e \<Rightarrow> Inl e
      | Inr xs \<Rightarrow> (case save_nodes ds ms of Inl e \<Rightarrow> Inl e | Inr ys \<Rightarrow> Inr (xs @ ys)))"
| "save_nodes ds ms = Inr []"

text \<open>
  \<open>torch.from_numpy(weights[ptr:ptr + n]).view_as(t)\<close>: the slice has \<open>n\<close> elements, or
  fewer at the end of the file, and \<open>view_as\<close> raises unless it has as many as \<open>t\<close>.
\<close>

definition read_as :: "'a list \<Rightarrow> nat \<Rightarrow> nat \<Rightarrow> 'a list \<Rightarrow> error + 'a list" where
  "read_as weights ptr n t =
     (let s = take n (drop ptr weights) in if length s = length t then Inr s else Inl RuntimeError)"

text \<open>
  What \<open>load_darknet_weights\<close> does for one node, from position \<open>ptr\<close>: the node with
  the parameters copied in, and the new position.
\<close>

definition load_bn ::
  "'a batchnorm2d \<Rightarrow> 'a list \<Rightarrow> nat \<Rightarrow> error + ('a batchnorm2d \<times> nat)" where
  "load_bn bn weights ptr =
     (let nb = length (bn_bias bn) in
      case read_as weights ptr nb (bn_bias bn) of Inl e \<Rightarrow> Inl e | Inr b \<Rightarrow>
     (case read_as weights (ptr + nb) nb (bn_weight bn) of Inl e \<Rightarrow> Inl e | Inr g \<Rightarrow>
     (case read_as weights (ptr + nb + nb) nb (bn_running_mean bn) of Inl e \<Rightarrow> Inl e | Inr rm \<Rightarrow>
     (case read_as weights (ptr + nb + nb + nb) nb (bn_running_var bn) of Inl e \<Rightarrow> Inl e | Inr rv \<Rightarrow>
        Inr (bn\<lparr>bn_bias := b, bn_weight := g, bn_running_mean := rm, bn_running_var := rv\<rparr>,
             ptr + nb + nb + nb + nb)))))"

definition load_conv_weight ::
  "'a conv2d \<Rightarrow> 'a list \<Rightarrow> nat \<Rightarrow> error + ('a conv2d \<times> nat)" where
  "load_conv_weight conv weights ptr =
     (let nw = length (c_weight conv) in
      case read_as weights ptr nw (c_weight conv) of
        Inl e \<Rightarrow> Inl e
      | Inr cw \<Rightarrow> Inr (conv\<lparr>c_weight := cw\<rparr>, ptr + nw))"

definition load_conv_bias ::
  "'a conv2d \<Rightarrow> 'a list \<Rightarrow> nat \<Rightarrow> error + ('a conv2d \<times> nat)" where
  "load_conv_bias conv weights ptr =
     (case c_bias conv of
        None \<Rightarrow> Inl AttributeError
      | Some b0 \<Rightarrow>
          (case read_as weights ptr (length b0) b0 of
             Inl e \<Rightarrow> Inl e
           | Inr b \<Rightarrow> Inr (conv\<lparr>c_bias := Some b\<rparr>, ptr + length b0)))"

definition load_node ::
  "layer_spec \<Rightarrow> 'a module \<Rightarrow> 'a list \<Rightarrow> nat \<Rightarrow> error + ('a module \<times> nat)" where
  "load_node d m weights ptr =
     (case is_convolutional d of
        Inl e \<Rightarrow> Inl e
      | Inr False \<Rightarrow> Inr (m, ptr)
      | Inr True \<Rightarrow>
          (case m of
             Sequential ls \<Rightarrow>
               (case child m 0 of
                  Inl e \<Rightarrow> Inl e
                | Inr (Conv2d conv) \<Rightarrow>
                    (case batch_normalize d of
                       Inl e \<Rightarrow> Inl e
                     | Inr True \<Rightarrow>
                         (case child m 1 of
                            Inl e \<Rightarrow> Inl e
                          | Inr (BatchNorm2d bn) \<Rightarrow>
                              (case load_bn bn weights ptr of
                                 Inl e \<Rightarrow> Inl e
                               | Inr (bn', ptr1) \<Rightarrow>
                                   (case load_conv_weight conv weights ptr1 of
                                      Inl e \<Rightarrow> Inl e
                                    | Inr (conv', ptr2) \<Rightarrow>
                                        Inr (Sequential (ls[0 := Conv2d conv', 1 := BatchNorm2d bn']),
                                             ptr2)))
                          | Inr _ \<Rightarrow> Inl AttributeError)
                     | Inr False \<Rightarrow>
                         (case load_conv_bias conv weights ptr of
                            Inl e \<Rightarrow> Inl e
                          | Inr (conv1, ptr1) \<Rightarrow>
                              (case load_conv_weight conv1 weights ptr1 of
                                 Inl e \<Rightarrow> Inl e
                               | Inr (conv', ptr2) \<Rightarrow>
                                   Inr (Sequential (ls[0 := Conv2d conv']), ptr2))))
                | Inr _ \<Rightarrow> Inl AttributeError)
           | _ \<Rightarrow> Inl TypeError))"

fun load_nodes ::
  "layer_spec list \<Rightarrow> 'a module list \<Rightarrow> 'a list \<Rightarrow> nat \<Rightarrow> error + ('a module list \<times> nat)" where
  "load_nodes (d # ds) (m # ms) weights ptr =
     (case load_node d m weights ptr of
        Inl e \<Rightarrow> Inl e
      | Inr (m', ptr') \<Rightarrow>
          (case load_nodes ds ms weights ptr' of
             Inl e \<Rightarrow> Inl e
           | Inr (ms', ptr'') \<Rightarrow> Inr (m' # ms', ptr'')))"
| "load_nodes ds ms weights ptr = Inr ([], ptr)"

subsection \<open>Bytes\<close>

text \<open>
  \<open>tofile\<close> and \<open>np.fromfile\<close> on a little-endian machine: an int32 or float32 is four
  bytes, an int64 eight, least significant byte first.  A float32 is kept as its 32-bit
  pattern; loading and saving copy it and do no arithmetic on it.
\<close>

type_synonym byte = "8 word"

definition to_le :: "nat \<Rightarrow> 'a::len word \<Rightarrow> byte list" where
  "to_le n x = map (\<lambda>i. ucast (drop_bit (8 * i) x)) [0..<n]"

fun of_le :: "byte list \<Rightarrow> 'a::len word" where
  "of_le [] = 0"
| "of_le (b # bs) = ucast b OR push_bit 8 (of_le bs)"

definition tofile :: "nat \<Rightarrow> 'a::len word list \<Rightarrow> byte list" where
  "tofile n xs = concat (map (to_le n) xs)"

text \<open>
  \<open>np.fromfile(f, dtype, count)\<close> on the rest of a file: the whole items that are there,
  at most \<open>count\<close> of them when a count is given, and the rest of the file after them.
\<close>

definition fromfile :: "nat \<Rightarrow> nat option \<Rightarrow> byte list \<Rightarrow> 'a::len word list \<times> byte list" where
  "fromfile n count bs =
     (let avail = length bs div n;
          k = (case count of None \<Rightarrow> avail | Some c \<Rightarrow> min c avail)
      in (map (\<lambda>i. of_le (take n (drop (i * n) bs))) [0..<k], drop (k * n) bs))"

subsection \<open>The two functions\<close>

text \<open>\<open>file\<close> is \<open>Path(weights).name\<close>, \<open>content\<close> the bytes of the file.\<close>

definition forced_cutoff :: "string \<Rightarrow> int \<Rightarrow> int" where
  "forced_cutoff file cutoff =
     (if file = ''darknet53.conv.74'' then 75
      else if file = ''yolov3-tiny.conv.15'' then 15
      else cutoff)"

definition load_darknet_weights ::
  "32 word darknet \<Rightarrow> string \<Rightarrow> byte list \<Rightarrow> int \<Rightarrow> error + 32 word darknet" where
  "load_darknet_weights self file content cutoff =
     (let cutoff' = forced_cutoff file cutoff;
          v = fromfile 4 (Some 3) content;
          s = fromfile 8 (Some 1) (snd v);
          weights = fst (fromfile 4 None (snd s))
      in case load_nodes (slice_to (module_define self) cutoff')
                         (slice_to (module_list self) cutoff') weights 0 of
           Inl e \<Rightarrow> Inl e
         | Inr (ms, ptr) \<Rightarrow>
             Inr (self\<lparr> module_list := ms @ drop (length ms) (module_list self),
                        version := fst v, seen := fst s \<rparr>))"

text \<open>
  \<open>save_darknet_weights\<close> returns the bytes written to \<open>model_weights_path\<close>; the path
  itself is only opened.
\<close>

definition save_darknet_weights :: "32 word darknet \<Rightarrow> string \<Rightarrow> int \<Rightarrow> error + byte list" where
  "save_darknet_weights self model_weights_path cutoff =
     (case save_nodes (slice_to (module_define self) cutoff)
                      (slice_to (module_list self) cutoff) of
        Inl e \<Rightarrow> Inl e
      | Inr ws \<Rightarrow> Inr (tofile 4 (version self) @ tofile 8 (seen self) @ tofile 4 ws))"


subsection \<open>The layout in the words of the specification\<close>

text \<open>
  Stated from the specification, to compare the code with: for a convolution node with a
  normalisation node, the normalisation bias, scale, running mean and running variance and
  then the convolution weights; for a convolution node without one, the convolution bias
  and then the convolution weights; nothing for any other node.
\<close>

fun spec_node_floats :: "'a module \<Rightarrow> 'a list" where
  "spec_node_floats (Sequential (Conv2d conv # BatchNorm2d bn # rest)) =
     bn_bias bn @ bn_weight bn @ bn_running_mean bn @ bn_running_var bn @ c_weight conv"
| "spec_node_floats (Sequential (Conv2d conv # rest)) =
     (case c_bias conv of None \<Rightarrow> [] | Some b \<Rightarrow> b) @ c_weight conv"
| "spec_node_floats m = []"

definition spec_stream :: "32 word darknet \<Rightarrow> int \<Rightarrow> byte list" where
  "spec_stream self cutoff =
     tofile 4 (version self) @ tofile 8 (seen self)
     @ tofile 4 (concat (map spec_node_floats (slice_to (module_list self) cutoff)))"

text \<open>
  A LayerSpec and the node that the builder makes from it: a convolution block gives a
  sequence that starts with the convolution, followed by the normalisation exactly when
  \<open>batch_normalize\<close> is set, and the convolution has a bias exactly when it is not; no
  other block gives a sequence that starts with a convolution.
\<close>

definition built_from :: "layer_spec \<Rightarrow> 'a module \<Rightarrow> bool" where
  "built_from d m =
     (case is_convolutional d of
        Inl e \<Rightarrow> False
      | Inr False \<Rightarrow> (case m of Sequential (Conv2d conv # rest) \<Rightarrow> False | _ \<Rightarrow> True)
      | Inr True \<Rightarrow>
          (case batch_normalize d of
             Inl e \<Rightarrow> False
           | Inr True \<Rightarrow>
               (case m of
                  Sequential (Conv2d conv # BatchNorm2d bn # rest) \<Rightarrow> c_bias conv = None
                | _ \<Rightarrow> False)
           | Inr False \<Rightarrow>
               (case m of
                  Sequential (Conv2d conv # BatchNorm2d bn # rest) \<Rightarrow> False
                | Sequential (Conv2d conv # rest) \<Rightarrow> c_bias conv \<noteq> None
                | _ \<Rightarrow> False)))"

subsection \<open>Conversion between the formats (model.py: convert\_model\_weights)\<close>

text \<open>
  The \<open>.weights\<close> branch loads the file into a new model (default cutoff -1) and stores
  its \<open>state_dict\<close>, the parameters and buffers of \<open>module_list\<close>; the \<open>.pth.tar\<close>
  branch puts a state into a new model and saves it with cutoff -1.  \<open>version\<close> and
  \<open>seen\<close> are plain attributes, not part of the state: a new model has version 0.2.5
  and has seen no image.
\<close>

definition new_darknet :: "layer_spec list \<Rightarrow> 'a module list \<Rightarrow> 'a darknet" where
  "new_darknet ds ms = \<lparr> module_define = ds, module_list = ms, version = [0, 2, 5], seen = [0] \<rparr>"

definition darknet_to_torch ::
  "32 word darknet \<Rightarrow> string \<Rightarrow> byte list \<Rightarrow> error + 32 word module list" where
  "darknet_to_torch self file content =
     (case load_darknet_weights self file content (- 1) of
        Inl e \<Rightarrow> Inl e
      | Inr self' \<Rightarrow> Inr (module_list self'))"

definition torch_to_darknet ::
  "layer_spec list \<Rightarrow> 32 word module list \<Rightarrow> string \<Rightarrow> error + byte list" where
  "torch_to_darknet ds state target = save_darknet_weights (new_darknet ds state) target (- 1)"

subsection \<open>A small graph and a small file\<close>

text \<open>
  A graph of two 1x1 convolutions without batch normalisation (three input channels into
  one, one into one), as the builder makes them, and a weight file for it: version 0.2.5,
  32000 images seen, and the six floats 1.0, 2.0, 3.0, 4.0 (first node: bias and three
  weights) and 5.0, 6.0 (second node: bias and weight).
\<close>

definition conv_spec :: layer_spec where
  "conv_spec =
     [(KStr ''type'', VStr ''convolutional''), (KStr ''batch_normalize'', VInt 0),
      (KStr ''filters'', VInt 1), (KStr ''size'', VInt 1), (KStr ''stride'', VInt 1),
      (KStr ''pad'', VInt 1), (KStr ''activation'', VStr ''linear'')]"

definition two_convs :: "32 word darknet" where
  "two_convs =
     \<lparr> module_define = [conv_spec, conv_spec],
       module_list =
         [Sequential [Conv2d \<lparr> c_in_channels = 3, c_out_channels = 1, c_kernel_size = (1, 1),
                               c_stride = (1, 1), c_padding = (0, 0), c_groups = 1,
                               c_weight = [0, 0, 0], c_bias = Some [0] \<rparr>],
          Sequential [Conv2d \<lparr> c_in_channels = 1, c_out_channels = 1, c_kernel_size = (1, 1),
                               c_stride = (1, 1), c_padding = (0, 0), c_groups = 1,
                               c_weight = [0], c_bias = Some [0] \<rparr>]],
       version = [0, 2, 5],
       seen = [0] \<rparr>"

definition two_convs_file :: "byte list" where
  "two_convs_file =
     [0, 0, 0, 0,  2, 0, 0, 0,  5, 0, 0, 0,
      0, 125, 0, 0, 0, 0, 0, 0,
      0, 0, 128, 63,  0, 0, 0, 64,  0, 0, 64, 64,  0, 0, 128, 64,
      0, 0, 160, 64,  0, 0, 192, 64]"

text \<open>The graph after loading the file with cutoff 1: only the first node is filled.\<close>

definition two_convs_loaded :: "32 word darknet" where
  "two_convs_loaded =
     \<lparr> module_define = [conv_spec, conv_spec],
       module_list =
         [Sequential [Conv2d \<lparr> c_in_channels = 3, c_out_channels = 1, c_kernel_size = (1, 1),
                               c_stride = (1, 1), c_padding = (0, 0), c_groups = 1,
                               c_weight = [1073741824, 1077936128, 1082130432],
                               c_bias = Some [1065353216] \<rparr>],
          Sequential [Conv2d \<lparr> c_in_channels = 1, c_out_channels = 1, c_kernel_size = (1, 1),
                               c_stride = (1, 1), c_padding = (0, 0), c_groups = 1,
                               c_weight = [0], c_bias = Some [0] \<rparr>]],
       version = [0, 2, 5],
       seen = [32000] \<rparr>"

section \<open>Smart bias initialisation (model.py: the try block of \_create\_modules)\<close>

text \<open>
  The block runs for a \<open>yolo\<close> LayerSpec (\<open>module\<close> in the source, \<open>block\<close> here), after the
  detection head \<open>modules\<close> was made.  \<open>module_define\<close> (here \<open>specs\<close>) is the list of LayerSpecs that the
  builder iterates over
  (the header already removed), \<open>yolo_index\<close> the number of the head.

  \<open>j = layers[yolo_index] if "from" in module else -1\<close>, with \<open>layers = module["from"]\<close>:
  an int cannot be indexed, and an element of a string or of the anchor array is no
  list index for the next line.
\<close>

definition bias_index :: "layer_spec \<Rightarrow> int \<Rightarrow> error + int" where
  "bias_index block yolo_index =
     (if contains block (KStr ''from'') then
        (case getitem block (KStr ''from'') of
           Inl e \<Rightarrow> Inl e
         | Inr (VInts from) \<Rightarrow> py_index from yolo_index
         | Inr (VInt n) \<Rightarrow> Inl TypeError
         | Inr (VStr s) \<Rightarrow> (case py_index s yolo_index of Inl e \<Rightarrow> Inl e | Inr c \<Rightarrow> Inl TypeError)
         | Inr (VAnchors a) \<Rightarrow> (case py_index a yolo_index of Inl e \<Rightarrow> Inl e | Inr r \<Rightarrow> Inl TypeError))
      else Inr (- 1))"

text \<open>
  \<open>module_define[j][0]\<close>: entry \<open>j\<close> of the list of LayerSpecs is a dict, whose class is
  not named \<open>Dropout\<close>, so \<open>j\<close> stays; the dict is then asked for the key \<open>0\<close>.
\<close>

definition bias_owner :: "layer_spec list \<Rightarrow> layer_spec \<Rightarrow> int \<Rightarrow> error + pyval" where
  "bias_owner specs block yolo_index =
     (case bias_index block yolo_index of
        Inl e \<Rightarrow> Inl e
      | Inr j \<Rightarrow>
          (case py_index specs j of
             Inl e \<Rightarrow> Inl e
           | Inr d \<Rightarrow> getitem d (KInt 0)))"

text \<open>\<open>.bias\<close> on a value of a LayerSpec: an int, a string, a list and an array have none.\<close>

fun bias_of :: "pyval \<Rightarrow> error + real list" where
  "bias_of (VInt n) = Inl AttributeError"
| "bias_of (VStr s) = Inl AttributeError"
| "bias_of (VInts ns) = Inl AttributeError"
| "bias_of (VAnchors a) = Inl AttributeError"

text \<open>
  The rest of the block, on a bias vector \<open>bias_\<close> (here \<open>bias0\<close>):
  \<open>bias = bias_[:no * na].view(na, -1)\<close>, \<open>bias[:, 4] += -4.5\<close>,
  \<open>bias[:, 5:] += math.log(0.6 / (num_classes - 0.99))\<close>, with \<open>bias\<close> a view of
  \<open>bias_\<close>, so that the sums are written into the vector itself.  The view needs a row
  count that divides the element count, the column 4 has to exist, and \<open>math.log\<close>
  refuses a negative number, after the column 4 was written.  The result is the
  exception, if there is one, and the vector as the block leaves it.
\<close>

definition add_at :: "(nat \<Rightarrow> bool) \<Rightarrow> real \<Rightarrow> real list \<Rightarrow> real list" where
  "add_at sel d xs = map (\<lambda>(i, v). if sel i then v + d else v) (zip [0..<length xs] xs)"

definition bias_update :: "yolo_layer \<Rightarrow> real list \<Rightarrow> error option \<times> real list" where
  "bias_update l bias0 =
     (let na = y_na l; no = num_classes_output l;
          b = take (no * na) bias0
      in if na = 0 \<or> length b mod na \<noteq> 0 then (Some RuntimeError, bias0)
         else
           let cols = length b div na in
           if cols \<le> 4 then (Some IndexError, bias0)
           else
             let b4 = add_at (\<lambda>i. i mod cols = 4) (- 4.5) b in
             if y_classes l = 0 then (Some ValueError, b4 @ drop (no * na) bias0)
             else
               (None, add_at (\<lambda>i. 5 \<le> i mod cols) (ln (0.6 / (real (y_classes l) - 0.99))) b4
                      @ drop (no * na) bias0))"

text \<open>
  The whole block: the exception that is raised before a bias vector is found, or what
  \<open>bias_update\<close> does with the vector.  The bare \<open>except\<close> turns every exception into
  the printed warning.
\<close>

definition smart_bias ::
  "layer_spec list \<Rightarrow> layer_spec \<Rightarrow> int \<Rightarrow> yolo_layer \<Rightarrow> error + (error option \<times> real list)" where
  "smart_bias specs block yolo_index l =
     (case bias_owner specs block yolo_index of
        Inl e \<Rightarrow> Inl e
      | Inr owner \<Rightarrow>
          (case bias_of owner of
             Inl e \<Rightarrow> Inl e
           | Inr bias0 \<Rightarrow> Inr (bias_update l bias0)))"

definition smart_bias_log :: "layer_spec list \<Rightarrow> layer_spec \<Rightarrow> int \<Rightarrow> yolo_layer \<Rightarrow> string list" where
  "smart_bias_log specs block yolo_index l =
     (case smart_bias specs block yolo_index l of
        Inr (None, b) \<Rightarrow> []
      | _ \<Rightarrow> [''WARNING: smart bias initialization failure.''])"

text \<open>
  The two blocks after the header of a small configuration: a 1x1 convolution with
  7 = 1 * (2 + 5) filters and no batch normalisation, and a detection head with one
  anchor and two classes.
\<close>

definition head_conv_spec :: layer_spec where
  "head_conv_spec =
     [(KStr ''type'', VStr ''convolutional''), (KStr ''batch_normalize'', VInt 0),
      (KStr ''filters'', VInt 7), (KStr ''size'', VInt 1), (KStr ''stride'', VInt 1),
      (KStr ''pad'', VInt 1), (KStr ''activation'', VStr ''linear'')]"

definition yolo_spec :: layer_spec where
  "yolo_spec =
     [(KStr ''type'', VStr ''yolo''), (KStr ''mask'', VInts [0]),
      (KStr ''anchors'', VAnchors [(10, 13)]), (KStr ''classes'', VInt 2), (KStr ''num'', VInt 1)]"

section \<open>Fusing a convolution with its batch normalisation (model.py: \_fuse\_conv\_and\_bn)\<close>

text \<open>
  Tensor elements are real numbers here: rounding is not modelled, and the square root
  and the quotient are those of the reals, which the float operations follow where
  \<open>var + eps\<close> is positive.  A matrix is the list of its rows.
  \<open>t.view(n, -1)\<close> on a tensor with the elements \<open>xs\<close>: \<open>n\<close> rows, when \<open>n\<close> is not 0
  and divides the number of elements.
\<close>

definition view_rows :: "nat \<Rightarrow> 'a list \<Rightarrow> error + 'a list list" where
  "view_rows n xs =
     (if n = 0 \<or> length xs mod n \<noteq> 0 then Inl RuntimeError
      else Inr (map (\<lambda>i. take (length xs div n) (drop (i * (length xs div n)) xs)) [0..<n]))"

text \<open>\<open>torch.diag\<close> of a vector.\<close>

definition diag :: "real list \<Rightarrow> real list list" where
  "diag v = map (\<lambda>i. map (\<lambda>k. if i = k then v ! i else 0) [0..<length v]) [0..<length v]"

text \<open>
  \<open>torch.mm(a, b)\<close> of an n x m matrix \<open>a\<close> (given with \<open>m\<close>) and a matrix \<open>b\<close> of
  \<open>cols\<close> columns: \<open>b\<close> must have \<open>m\<close> rows.
\<close>

definition mm :: "nat \<Rightarrow> real list list \<Rightarrow> nat \<Rightarrow> real list list \<Rightarrow> error + real list list" where
  "mm m a cols b =
     (if length b \<noteq> m then Inl RuntimeError
      else Inr (map (\<lambda>row. map (\<lambda>j. \<Sum>k<m. row ! k * b ! k ! j) [0..<cols]) a))"

text \<open>
  An elementwise operation on two vectors, with the broadcasting of torch: equal sizes,
  or one of the two of size 1.
\<close>

definition elementwise :: "(real \<Rightarrow> real \<Rightarrow> real) \<Rightarrow> real list \<Rightarrow> real list \<Rightarrow> error + real list" where
  "elementwise f xs ys =
     (if length xs = length ys then Inr (map2 f xs ys)
      else if length xs = 1 then Inr (map (f (hd xs)) ys)
      else if length ys = 1 then Inr (map (\<lambda>x. f x (hd ys)) xs)
      else Inl RuntimeError)"

text \<open>\<open>bn.weight.div(torch.sqrt(bn.eps + bn.running_var))\<close>, the diagonal of \<open>w_bn\<close>.\<close>

definition bn_scale :: "real batchnorm2d \<Rightarrow> error + real list" where
  "bn_scale bn =
     elementwise (\<lambda>g v. g / sqrt (bn_eps bn + v)) (bn_weight bn) (bn_running_var bn)"

text \<open>
  \<open>bn.bias - bn.weight.mul(bn.running_mean).div(torch.sqrt(bn.running_var + bn.eps))\<close>.
\<close>

definition b_bn :: "real batchnorm2d \<Rightarrow> error + real list" where
  "b_bn bn =
     (case elementwise (*) (bn_weight bn) (bn_running_mean bn) of
        Inl e \<Rightarrow> Inl e
      | Inr gm \<Rightarrow>
          (case elementwise (\<lambda>x v. x / sqrt (v + bn_eps bn)) gm (bn_running_var bn) of
             Inl e \<Rightarrow> Inl e
           | Inr q \<Rightarrow> elementwise (-) (bn_bias bn) q))"

text \<open>
  \<open>_fuse_conv_and_bn\<close>.  The new convolution is made from the channel counts, the kernel
  size, the stride and the padding of the old one, and from nothing else: it has one
  group, and its weight has \<open>out * in * kh * kw\<close> elements.  The product of \<open>w_bn\<close> and
  \<open>w_conv\<close> is viewed in the shape of that weight, and the new bias is copied into a
  vector of \<open>out\<close> elements; both raise RuntimeError when the sizes do not fit.
\<close>

definition fuse_conv_and_bn :: "real conv2d \<Rightarrow> real batchnorm2d \<Rightarrow> error + real conv2d" where
  "fuse_conv_and_bn conv bn =
     (let out = c_out_channels conv;
          fused_numel = out * c_in_channels conv * fst (c_kernel_size conv) * snd (c_kernel_size conv)
      in case view_rows out (c_weight conv) of
           Inl e \<Rightarrow> Inl e
         | Inr w_conv \<Rightarrow>
             (case bn_scale bn of
                Inl e \<Rightarrow> Inl e
              | Inr s \<Rightarrow>
                  (case mm (length s) (diag s) (length (c_weight conv) div out) w_conv of
                     Inl e \<Rightarrow> Inl e
                   | Inr fw \<Rightarrow>
                       if length (concat fw) \<noteq> fused_numel then Inl RuntimeError
                       else
                         (case b_bn bn of
                            Inl e \<Rightarrow> Inl e
                          | Inr bb \<Rightarrow>
                              (case mm (length s) (diag s) 1
                                      (map (\<lambda>x. [x])
                                         (case c_bias conv of Some b \<Rightarrow> b | None \<Rightarrow> replicate out 0)) of
                                 Inl e \<Rightarrow> Inl e
                               | Inr bm \<Rightarrow>
                                   (case elementwise (+) (concat bm) bb of
                                      Inl e \<Rightarrow> Inl e
                                    | Inr b' \<Rightarrow>
                                        if length b' \<noteq> out \<and> length b' \<noteq> 1 then Inl RuntimeError
                                        else Inr \<lparr> c_in_channels = c_in_channels conv,
                                                   c_out_channels = out,
                                                   c_kernel_size = c_kernel_size conv,
                                                   c_stride = c_stride conv,
                                                   c_padding = c_padding conv,
                                                   c_groups = 1,
                                                   c_weight = concat fw,
                                                   c_bias = Some (if length b' = out then b'
                                                                  else replicate out (hd b')) \<rparr>))))))"

text \<open>
  \<open>Darknet.fuse\<close> on one node: in a sequence, the first batch normalisation is fused with
  the child before it (\<open>a[i - 1]\<close>, the last child when \<open>i\<close> is 0) and the sequence
  continues after the normalisation; a child that is no convolution has none of the
  attributes that the fusion reads.  Every other node stays.
\<close>

fun first_bn :: "'a layer list \<Rightarrow> nat \<Rightarrow> (nat \<times> 'a batchnorm2d) option" where
  "first_bn [] i = None"
| "first_bn (BatchNorm2d b # ls) i = Some (i, b)"
| "first_bn (l # ls) i = first_bn ls (i + 1)"

definition fuse_node :: "real module \<Rightarrow> error + real module" where
  "fuse_node a =
     (case a of
        Sequential ls \<Rightarrow>
          (case first_bn ls 0 of
             None \<Rightarrow> Inr a
           | Some (i, b) \<Rightarrow>
               (case py_index ls (int i - 1) of
                  Inl e \<Rightarrow> Inl e
                | Inr (Conv2d conv) \<Rightarrow>
                    (case fuse_conv_and_bn conv b of
                       Inl e \<Rightarrow> Inl e
                     | Inr fused \<Rightarrow> Inr (Sequential (Conv2d fused # drop (i + 1) ls)))
                | Inr _ \<Rightarrow> Inl AttributeError))
      | _ \<Rightarrow> Inr a)"

fun fuse_nodes :: "real module list \<Rightarrow> error + real module list" where
  "fuse_nodes [] = Inr []"
| "fuse_nodes (a # as) =
     (case fuse_node a of
        Inl e \<Rightarrow> Inl e
      | Inr a' \<Rightarrow> (case fuse_nodes as of Inl e \<Rightarrow> Inl e | Inr as' \<Rightarrow> Inr (a' # as')))"

text \<open>
  A convolution of two groups (two channels in, two out, 1x1 kernel, as the builder makes
  it for \<open>groups=2\<close> with batch normalisation: no bias, a weight of 2 x 1 x 1 x 1
  elements) and a batch normalisation of two channels.
\<close>

definition grouped_conv :: "real conv2d" where
  "grouped_conv =
     \<lparr> c_in_channels = 2, c_out_channels = 2, c_kernel_size = (1, 1), c_stride = (1, 1),
       c_padding = (0, 0), c_groups = 2, c_weight = [1, 1], c_bias = None \<rparr>"

definition plain_bn :: "real batchnorm2d" where
  "plain_bn =
     \<lparr> bn_num_features = 2, bn_eps = 1 / 10000, bn_bias = [0, 0], bn_weight = [1, 1],
       bn_running_mean = [0, 0], bn_running_var = [1, 1] \<rparr>"

section \<open>Properties of the box geometry\<close>

lemma eps16_pos: "0 < eps16"
  by (simp add: eps16_def)

lemma c_area_pos:
  assumes "ordered_box c1" and "ordered_box c2"
  shows "0 < c_area c1 c2"
proof -
  obtain x1 y1 x2 y2 where c1: "c1 = (x1, y1, x2, y2)" by (cases c1) auto
  obtain u1 v1 u2 v2 where c2: "c2 = (u1, v1, u2, v2)" by (cases c2) auto
  from assms have o: "x1 \<le> x2" "y1 \<le> y2" "u1 \<le> u2" "v1 \<le> v2"
    by (simp_all add: ordered_box_def c1 c2)
  define cw where "cw = max x2 u2 - min x1 u1"
  define ch where "ch = max y2 v2 - min y1 v1"
  have "0 \<le> cw" unfolding cw_def using o by linarith
  moreover have "0 \<le> ch" unfolding ch_def using o by linarith
  ultimately have "0 \<le> cw * ch" by (rule mult_nonneg_nonneg)
  moreover have "c_area c1 c2 = cw * ch + eps16"
    by (simp only: c_area_def convex_w_def convex_h_def c1 c2 prod.case cw_def ch_def)
  ultimately show ?thesis using eps16_pos by linarith
qed

lemma inter_le_area1:
  assumes "ordered_box c1" and "ordered_box c2"
  shows "inter_area c1 c2 \<le> box_w c2 * box_h c2"
proof -
  obtain x1 y1 x2 y2 where c1: "c1 = (x1, y1, x2, y2)" by (cases c1) auto
  obtain u1 v1 u2 v2 where c2: "c2 = (u1, v1, u2, v2)" by (cases c2) auto
  from assms have o: "x1 \<le> x2" "y1 \<le> y2" "u1 \<le> u2" "v1 \<le> v2"
    by (simp_all add: ordered_box_def c1 c2)
  define iw where "iw = max 0 (min x2 u2 - max x1 u1)"
  define ih where "ih = max 0 (min y2 v2 - max y1 v1)"
  have "iw * ih \<le> (u2 - u1) * (v2 - v1)"
  proof (rule mult_mono)
    show "iw \<le> u2 - u1" unfolding iw_def using o by linarith
    show "ih \<le> v2 - v1" unfolding ih_def using o by linarith
    show "0 \<le> u2 - u1" using o by simp
    show "0 \<le> ih" unfolding ih_def by simp
  qed
  then show ?thesis
    by (simp only: inter_area_def box_w_def box_h_def c1 c2 prod.case iw_def ih_def)
qed

lemma union_area_pos:
  assumes "ordered_box c1" and "ordered_box c2"
  shows "0 < union_area c1 c2"
proof -
  obtain x1 y1 x2 y2 where c1: "c1 = (x1, y1, x2, y2)" by (cases c1) auto
  obtain u1 v1 u2 v2 where c2: "c2 = (u1, v1, u2, v2)" by (cases c2) auto
  from assms have o: "x1 \<le> x2" "y1 \<le> y2" "u1 \<le> u2" "v1 \<le> v2"
    by (simp_all add: ordered_box_def c1 c2)
  define a where "a = (x2 - x1) * (y2 - y1)"
  define b where "b = (u2 - u1) * (v2 - v1)"
  have "0 \<le> a" unfolding a_def using o by simp
  moreover have "inter_area c1 c2 \<le> b"
    using inter_le_area1[OF assms] by (simp only: box_w_def box_h_def c2 prod.case b_def)
  moreover have "union_area c1 c2 = a + eps16 + b - inter_area c1 c2"
    by (simp only: union_area_def c1 c2 Let_def prod.case a_def b_def)
  ultimately show ?thesis using eps16_pos by linarith
qed

lemma c2_diag_pos: "0 < c2_diag c1 c2"
proof -
  have "0 \<le> (convex_w c1 c2)\<^sup>2 + (convex_h c1 c2)\<^sup>2" by simp
  then show ?thesis unfolding c2_diag_def using eps16_pos by linarith
qed

text \<open>
  Claim C7: every division of the IoU family has an epsilon in its denominator.  The
  union, the convex area and the convex diagonal do (lemmas \<open>union_area_pos\<close>,
  \<open>c_area_pos\<close>, \<open>c2_diag_pos\<close>); the denominator of \<open>wh_iou\<close> and the height that
  divides the width in the CIoU branch do not, and both are zero on zero-area input.
\<close>

theorem iou_denominators_zero:
  "wh_iou_denominator (0, 0) (0, 0) = 0
   \<and> box_h (corners True (0, 0, 1, 0)) = 0"
  by (simp add: wh_iou_denominator_def wh_prod_def wh_inter_def box_h_def corners_def)

section \<open>Properties of the target assignment\<close>


lemma build_targets_loop_classes:
  "build_targets_loop p targets nc thr as = Inr rs \<Longrightarrow> r \<in> set rs \<Longrightarrow> c \<in> set (tcls r) \<Longrightarrow> c < nc"
proof (induction as arbitrary: p rs)
  case Nil
  then show ?case by simp
next
  case (Cons a as)
  then obtain s p' where p: "p = s # p'" by (cases p) auto
  let ?r = "assign_layer a s thr targets"
  from Cons.prems(1) p have ok: "\<not> (tcls ?r \<noteq> [] \<and> \<not> Max (set (tcls ?r)) < nc)"
    by (auto simp: Let_def split: if_splits)
  from Cons.prems(1) p ok obtain rs' where
    rs': "build_targets_loop p' targets nc thr as = Inr rs'" and rs: "rs = ?r # rs'"
    by (auto simp: Let_def split: if_splits sum.splits)
  show ?case
  proof (cases "r = ?r")
    case True
    with Cons.prems(3) have m: "c \<in> set (tcls ?r)" by simp
    then have ne: "tcls ?r \<noteq> []" by auto
    have lt: "Max (set (tcls ?r)) < nc" using ok ne by blast
    have "c \<le> Max (set (tcls ?r))" using m by (intro Max_ge) auto
    then show ?thesis using lt by linarith
  next
    case False
    with Cons.prems(2) rs have "r \<in> set rs'" by auto
    then show ?thesis using Cons.IH[OF rs'] Cons.prems(3) by blast
  qed
qed


lemmas assign_layer_defs =
  assign_layer_def gain_of_def match_anchors_def mul_gain_def gwh_of_def gxy_of_def wh_iou_def
  wh_iou1_def fdiv_def wh_inter_def wh_iou_denominator_def wh_prod_def class_of_def image_of_def
  long_def in_int64_def clamp_def Let_def




text \<open>
  A class id beyond the int64 range is not caught either, although its target matches
  the anchor: \<open>10^30\<close> converts to the most negative integer, which is below every class
  count, and the assignment is returned with that class.
\<close>

lemma build_targets_huge_class:
  "map tcls (projr (build_targets [(1, 1, 13, 13, 6)] [(0, 10 ^ 30, 1 / 2, 1 / 2, 1 / 5, 1 / 5)]
     \<lparr>anchor_vecs = [[(2, 2)]], num_classes = 1, iou_t = 1 / 5\<rparr>)) = [[- (2 ^ 63)]]
   \<and> isl (build_targets [(1, 1, 13, 13, 6)] [(0, 10 ^ 30, 1 / 2, 1 / 2, 1 / 5, 1 / 5)]
     \<lparr>anchor_vecs = [[(2, 2)]], num_classes = 1, iou_t = 1 / 5\<rparr>) = False"
  by (simp add: build_targets_def assign_layer_defs)

text \<open>
  A zero-area target against a zero-area anchor has the quotient 0/0, which compares
  false with every threshold: the pair is not kept, also for a negative \<open>iou_t\<close>.
\<close>

lemma match_anchors_nan:
  "match_anchors [(0, 0)] (- 1) [(0, 0, 1 / 2, 1 / 2, 0, 0)] = []"
  by (simp add: match_anchors_def gwh_of_def wh_iou_def wh_iou1_def fdiv_def wh_inter_def
      wh_iou_denominator_def wh_prod_def Let_def)

section \<open>Properties of the weighted feature fusion\<close>

lemma fusion_step_length:
  "length (if length x = na then map2 (+) x a
           else if length x > na then map2 (+) (take na x) a @ drop na x
           else map2 (+) x (take (length x) a)) = length x"
  if "na = length a" for x a :: "'a::real_vector list"
  using that by auto

lemma fusion_step_nth:
  fixes x a :: "'a::real_vector list"
  assumes "na = length a" and "c < length x"
  shows "(if length x = na then map2 (+) x a
          else if length x > na then map2 (+) (take na x) a @ drop na x
          else map2 (+) x (take (length x) a)) ! c
         = x ! c + (if c < length a then a ! c else 0)"
  using assms by (auto simp: nth_append)

lemma sum_contrib_Cons:
  "(\<Sum>k<length (s # ss). contrib (g k) (h ((s # ss) ! k)) c)
     = contrib (g 0) (h s) c + (\<Sum>k<length ss. contrib (g (Suc k)) (h (ss ! k)) c)"
proof -
  let ?f = "\<lambda>k. contrib (g k) (h ((s # ss) ! k)) c"
  have "(\<Sum>k<Suc (length ss). ?f k) = ?f 0 + (\<Sum>k<length ss. ?f (Suc k))"
    by (rule sum.lessThan_Suc_shift)
  then show ?thesis by simp
qed

lemma fusion_loop_step:
  assumes "py_index outputs l = Inr src" and "src \<noteq> Placeholder"
    and "wt \<Longrightarrow> i + 1 < length sw"
  shows "fusion_loop wt sw outputs nx (l # ls) i (arg, x)
       = fusion_loop wt sw outputs nx ls (i + 1)
           (fusion_step nx (map (\<lambda>v. (if wt then sw ! (i + 1) else 1) *\<^sub>R v) (as_read arg src))
              (arg, x))"
proof (cases wt)
  case True
  then have ti: "tensor_index sw (i + 1) = Inr (sw ! (i + 1))"
    using assms(3) by (simp add: tensor_index_def)
  show ?thesis
    using assms(1,2) True ti
    by (cases src) (simp_all add: fusion_step_def Let_def)
next
  case False
  then show ?thesis
    using assms(1,2) by (cases src) (simp_all add: fusion_step_def Let_def)
qed

lemma fusion_step_bound:
  fixes a :: "'a::real_vector list"
  assumes "length (bound arg x) = nx" and "fusion_step nx a (arg, x) = (arg1, x1)"
  shows "length (bound arg1 x1) = nx"
    and "c < nx \<Longrightarrow> bound arg1 x1 ! c = bound arg x ! c + (if c < length a then a ! c else 0)"
proof -
  define new where "new = (if length (bound arg x) = length a then map2 (+) (bound arg x) a
          else if length (bound arg x) > length a
          then map2 (+) (take (length a) (bound arg x)) a @ drop (length a) (bound arg x)
          else map2 (+) (bound arg x) (take (length (bound arg x)) a))"
  have b: "bound arg1 x1 = new"
    using assms by (cases x) (auto simp: fusion_step_def Let_def new_def split: if_splits)
  show "length (bound arg1 x1) = nx"
    unfolding b new_def using fusion_step_length[of "length a" a "bound arg x"] assms(1) by simp
  show "c < nx \<Longrightarrow> bound arg1 x1 ! c = bound arg x ! c + (if c < length a then a ! c else 0)"
    unfolding b new_def using fusion_step_nth[of "length a" a c "bound arg x"] assms(1) by simp
qed

lemma fusion_step_arg:
  fixes a :: "'a::real_vector list"
  assumes "fusion_step nx a (arg, x) = (arg1, x1)"
  shows "x \<noteq> Caller \<or> \<not> length a < nx \<Longrightarrow> arg1 = arg \<and> x1 \<noteq> Caller"
    and "x = Caller \<Longrightarrow> length a < nx \<Longrightarrow> x1 = Caller \<and> arg1 = bound arg1 x1"
  using assms by (cases x; auto simp: fusion_step_def Let_def split: if_splits)+

text \<open>Once \<open>x\<close> is bound to a new tensor, the argument object stays as it is.\<close>

lemma fusion_loop_fresh:
  fixes arg :: "'a::real_vector list"
  assumes "length t = nx"
    and "map (py_index outputs) ls = map Inr srcs" and "Placeholder \<notin> set srcs"
    and "wt \<Longrightarrow> i + length ls < length sw"
  shows "\<exists>y. fusion_loop wt sw outputs nx ls i (arg, Fresh t) = Inr (y, arg) \<and> length y = nx \<and>
     (\<forall>c<nx. y ! c = t ! c
          + (\<Sum>k<length srcs. contrib (if wt then sw ! (i + 1 + k) else 1) (as_read arg (srcs ! k)) c))"
  using assms
proof (induction ls arbitrary: srcs i t)
  case Nil
  then show ?case by simp
next
  case (Cons l ls)
  from Cons.prems(2) obtain s0 srcs' where srcs: "srcs = s0 # srcs'"
    and l: "py_index outputs l = Inr s0"
    and rest: "map (py_index outputs) ls = map Inr srcs'"
    by (cases srcs) auto
  have np: "s0 \<noteq> Placeholder" and np': "Placeholder \<notin> set srcs'"
    using Cons.prems(3) srcs by auto
  define s where "s = (if wt then sw ! (i + 1) else 1)"
  define a where "a = map (\<lambda>v. s *\<^sub>R v) (as_read arg s0)"
  obtain arg1 x1 where st: "fusion_step nx a (arg, Fresh t) = (arg1, x1)" by fastforce
  have wi: "wt \<Longrightarrow> i + 1 < length sw" using Cons.prems(4) by simp
  have step: "fusion_loop wt sw outputs nx (l # ls) i (arg, Fresh t)
            = fusion_loop wt sw outputs nx ls (i + 1) (arg1, x1)"
    using fusion_loop_step[OF l np wi, where nx = nx and ls = ls and arg = arg and x = "Fresh t"] st
    by (simp add: a_def s_def)
  have a1: "arg1 = arg" and x1: "x1 \<noteq> Caller"
    using fusion_step_arg(1)[OF st] by simp_all
  then obtain t1 where t1: "x1 = Fresh t1" by (cases x1) auto
  have bt: "length (bound arg (Fresh t)) = nx" using Cons.prems(1) by simp
  have len1: "length t1 = nx" using fusion_step_bound(1)[OF bt st] t1 by simp
  have nth1: "t1 ! c = t ! c + contrib s (as_read arg s0) c" if "c < nx" for c
    using fusion_step_bound(2)[OF bt st that] t1 by (simp add: contrib_def a_def)
  have "\<exists>y. fusion_loop wt sw outputs nx ls (i + 1) (arg, Fresh t1) = Inr (y, arg) \<and> length y = nx \<and>
     (\<forall>c<nx. y ! c = t1 ! c
          + (\<Sum>k<length srcs'. contrib (if wt then sw ! (i + 1 + 1 + k) else 1)
                                   (as_read arg (srcs' ! k)) c))"
    using Cons.prems(4) len1 rest np' by (intro Cons.IH) auto
  then obtain y where y: "fusion_loop wt sw outputs nx ls (i + 1) (arg, Fresh t1) = Inr (y, arg)"
    and leny: "length y = nx"
    and nthy: "\<And>c. c < nx \<Longrightarrow> y ! c = t1 ! c
          + (\<Sum>k<length srcs'. contrib (if wt then sw ! (i + 1 + 1 + k) else 1)
                                   (as_read arg (srcs' ! k)) c)"
    by blast
  have "y ! c = t ! c
          + (\<Sum>k<length srcs. contrib (if wt then sw ! (i + 1 + k) else 1) (as_read arg (srcs ! k)) c)"
    if "c < nx" for c
  proof -
    have "(\<Sum>k<length srcs. contrib (if wt then sw ! (i + 1 + k) else 1) (as_read arg (srcs ! k)) c)
        = contrib s (as_read arg s0) c
          + (\<Sum>k<length srcs'. contrib (if wt then sw ! (i + 1 + 1 + k) else 1)
                                   (as_read arg (srcs' ! k)) c)"
      unfolding srcs
      using sum_contrib_Cons[of "\<lambda>k. if wt then sw ! (i + 1 + k) else 1" "as_read arg" s0 srcs' c]
      by (simp add: s_def)
    then show ?thesis using nthy[OF that] nth1[OF that] by (simp add: add.assoc)
  qed
  then show ?case using step y leny a1 t1 by auto
qed

text \<open>
  While \<open>x\<close> is the argument object (no weights), the narrower sources are written into
  it; the first source that is not narrower binds \<open>x\<close> to a new tensor.
\<close>

lemma fusion_loop_caller:
  fixes arg :: "'a::real_vector list"
  assumes "length arg = nx"
    and "map (py_index outputs) ls = map Inr srcs" and "Placeholder \<notin> set srcs"
  shows "\<exists>y arg'. fusion_loop False sw outputs nx ls i (arg, Caller) = Inr (y, arg')
     \<and> length y = nx \<and> length arg' = nx
     \<and> (\<forall>c<nx. y ! c = arg ! c + (\<Sum>k<length srcs. contrib 1 (as_read arg' (srcs ! k)) c))
     \<and> (\<forall>c<nx. arg' ! c = arg ! c
           + (\<Sum>k<length (written False nx srcs). contrib 1 (as_read arg (written False nx srcs ! k)) c))"
  using assms
proof (induction ls arbitrary: srcs i arg)
  case Nil
  then show ?case by (simp add: written_def)
next
  case (Cons l ls)
  from Cons.prems(2) obtain s0 srcs' where srcs: "srcs = s0 # srcs'"
    and l: "py_index outputs l = Inr s0"
    and rest: "map (py_index outputs) ls = map Inr srcs'"
    by (cases srcs) auto
  have np: "s0 \<noteq> Placeholder" and np': "Placeholder \<notin> set srcs'"
    using Cons.prems(3) srcs by auto
  define a where "a = as_read arg s0"
  obtain arg1 x1 where st: "fusion_step nx a (arg, Caller) = (arg1, x1)" by fastforce
  have step: "fusion_loop False sw outputs nx (l # ls) i (arg, Caller)
            = fusion_loop False sw outputs nx ls (i + 1) (arg1, x1)"
    using fusion_loop_step[OF l np, where wt = False and i = i and sw = sw and nx = nx and ls = ls
        and arg = arg and x = Caller] st
    by (simp add: a_def)
  have bt: "length (bound arg Caller) = nx" using Cons.prems(1) by simp
  have len1: "length (bound arg1 x1) = nx" using fusion_step_bound(1)[OF bt st] .
  have nth1: "bound arg1 x1 ! c = arg ! c + contrib 1 a c" if "c < nx" for c
    using fusion_step_bound(2)[OF bt st that] by (simp add: contrib_def)
  show ?case
  proof (cases "length a < nx")
    case narrow: True
    then obtain t0 where s0: "s0 = Stored t0"
      using np Cons.prems(1) by (cases s0) (auto simp: a_def)
    have a: "a = t0" by (simp add: a_def s0)
    have x1: "x1 = Caller" and b1: "arg1 = bound arg1 x1"
      using fusion_step_arg(2)[OF st _ narrow] by simp_all
    have la1: "length arg1 = nx" using len1 b1 by simp
    have n1: "arg1 ! c = arg ! c + contrib 1 t0 c" if "c < nx" for c
      using nth1[OF that] b1 a by simp
    have "\<exists>y arg'. fusion_loop False sw outputs nx ls (i + 1) (arg1, Caller) = Inr (y, arg')
       \<and> length y = nx \<and> length arg' = nx
       \<and> (\<forall>c<nx. y ! c = arg1 ! c + (\<Sum>k<length srcs'. contrib 1 (as_read arg' (srcs' ! k)) c))
       \<and> (\<forall>c<nx. arg' ! c = arg1 ! c
             + (\<Sum>k<length (written False nx srcs').
                   contrib 1 (as_read arg1 (written False nx srcs' ! k)) c))"
      using la1 rest np' by (intro Cons.IH) auto
    then obtain y arg' where
      y: "fusion_loop False sw outputs nx ls (i + 1) (arg1, Caller) = Inr (y, arg')"
      and leny: "length y = nx" and lena: "length arg' = nx"
      and nthy: "\<And>c. c < nx \<Longrightarrow>
            y ! c = arg1 ! c + (\<Sum>k<length srcs'. contrib 1 (as_read arg' (srcs' ! k)) c)"
      and ntha: "\<And>c. c < nx \<Longrightarrow> arg' ! c = arg1 ! c
             + (\<Sum>k<length (written False nx srcs').
                   contrib 1 (as_read arg1 (written False nx srcs' ! k)) c)"
      by blast
    have wr: "written False nx srcs = Stored t0 # written False nx srcs'"
      using narrow a by (simp add: written_def srcs s0)
    have stored: "as_read arg1 s = as_read arg s" if "s \<in> set (written False nx srcs')" for s
    proof -
      from that have "case s of Stored t \<Rightarrow> length t < nx | _ \<Rightarrow> False"
        unfolding written_def using set_takeWhileD[of s _ srcs'] by auto
      then show ?thesis by (cases s) simp_all
    qed
    have ry: "y ! c = arg ! c + (\<Sum>k<length srcs. contrib 1 (as_read arg' (srcs ! k)) c)"
      if "c < nx" for c
    proof -
      have "(\<Sum>k<length srcs. contrib 1 (as_read arg' (srcs ! k)) c)
          = contrib 1 (as_read arg' s0) c + (\<Sum>k<length srcs'. contrib 1 (as_read arg' (srcs' ! k)) c)"
        unfolding srcs using sum_contrib_Cons[of "\<lambda>k. 1" "as_read arg'" s0 srcs' c] by simp
      then show ?thesis using nthy[OF that] n1[OF that] by (simp add: s0 add.assoc)
    qed
    have ra: "arg' ! c = arg ! c
           + (\<Sum>k<length (written False nx srcs). contrib 1 (as_read arg (written False nx srcs ! k)) c)"
      if "c < nx" for c
    proof -
      have "(\<Sum>k<length (written False nx srcs').
                   contrib 1 (as_read arg1 (written False nx srcs' ! k)) c)
          = (\<Sum>k<length (written False nx srcs').
                   contrib 1 (as_read arg (written False nx srcs' ! k)) c)"
        by (rule sum.cong) (simp_all add: stored)
      moreover have "(\<Sum>k<length (written False nx srcs).
                        contrib 1 (as_read arg (written False nx srcs ! k)) c)
          = contrib 1 t0 c + (\<Sum>k<length (written False nx srcs').
                   contrib 1 (as_read arg (written False nx srcs' ! k)) c)"
        unfolding wr
        using sum_contrib_Cons[of "\<lambda>k. 1" "as_read arg" "Stored t0" "written False nx srcs'" c]
        by simp
      ultimately show ?thesis using ntha[OF that] n1[OF that] by (simp add: add.assoc)
    qed
    show ?thesis using step x1 y leny lena ry ra by auto
  next
    case wide: False
    have a1: "arg1 = arg" and x1: "x1 \<noteq> Caller"
      using fusion_step_arg(1)[OF st] wide by simp_all
    then obtain t1 where t1: "x1 = Fresh t1" by (cases x1) auto
    have lt1: "length t1 = nx" using len1 t1 by simp
    have n1: "t1 ! c = arg ! c + contrib 1 a c" if "c < nx" for c
      using nth1[OF that] t1 by simp
    have "\<exists>y. fusion_loop False sw outputs nx ls (i + 1) (arg, Fresh t1) = Inr (y, arg)
       \<and> length y = nx \<and>
       (\<forall>c<nx. y ! c = t1 ! c
          + (\<Sum>k<length srcs'. contrib (if False then sw ! (i + 1 + 1 + k) else 1)
                                   (as_read arg (srcs' ! k)) c))"
      using lt1 rest np' by (intro fusion_loop_fresh) auto
    then obtain y where
      y: "fusion_loop False sw outputs nx ls (i + 1) (arg, Fresh t1) = Inr (y, arg)"
      and leny: "length y = nx"
      and nthy: "\<And>c. c < nx \<Longrightarrow>
            y ! c = t1 ! c + (\<Sum>k<length srcs'. contrib 1 (as_read arg (srcs' ! k)) c)"
      by auto
    have wr: "written False nx srcs = []"
      using wide Cons.prems(1) by (cases s0) (auto simp: written_def srcs a_def)
    have ry: "y ! c = arg ! c + (\<Sum>k<length srcs. contrib 1 (as_read arg (srcs ! k)) c)"
      if "c < nx" for c
    proof -
      have "(\<Sum>k<length srcs. contrib 1 (as_read arg (srcs ! k)) c)
          = contrib 1 (as_read arg s0) c + (\<Sum>k<length srcs'. contrib 1 (as_read arg (srcs' ! k)) c)"
        unfolding srcs using sum_contrib_Cons[of "\<lambda>k. 1" "as_read arg" s0 srcs' c] by simp
      then show ?thesis using nthy[OF that] n1[OF that] by (simp add: a_def add.assoc)
    qed
    show ?thesis using step a1 t1 y leny ry wr Cons.prems(1) by auto
  qed
qed


text \<open>
  Claim C8.  When every source index of the node is in range and names a stored output
  (and, with weights, there is one weight for each of the \<open>n\<close> sources), the node returns a
  tensor with the channel count of the running tensor \<open>x\<close>.  Channel \<open>c\<close> of the result is
  channel \<open>c\<close> of \<open>x\<close> plus channel \<open>c\<close> of every source that has such a channel: a source
  with as many channels is added elementwise, one with fewer reaches only the leading
  channels of \<open>x\<close>, one with more is cut to the channels of \<open>x\<close>.  With weights, each of the
  \<open>n\<close> terms (including \<open>x\<close>) is first scaled by \<open>sigmoid\<close> of its scalar times \<open>2 / n\<close>.
  A source is added as it is when the loop reads it: a source that is the tensor object
  passed as \<open>x\<close> is read as the call leaves that object, \<open>x'\<close>, which is \<open>x\<close> with the
  sources written into it in place (none with weights; without weights the narrower
  sources that come before the first source that is not narrower).
\<close>

theorem fusion_forward_channels:
  fixes x :: "'a::real_vector list"
  assumes "map (py_index outputs) (layers f) = map Inr srcs" and "Placeholder \<notin> set srcs"
    and "weight f \<Longrightarrow> length (w f) = fusion_n f"
  shows "\<exists>y x'. fusion_forward f x outputs = Inr (y, x')
     \<and> length y = length x \<and> length x' = length x
     \<and> (\<forall>c<length x. y ! c = fusion_scale f 0 *\<^sub>R x ! c
          + (\<Sum>k<length srcs. contrib (fusion_scale f (k + 1)) (as_read x' (srcs ! k)) c))
     \<and> (\<forall>c<length x. x' ! c = x ! c
          + (\<Sum>k<length (written (weight f) (length x) srcs).
                contrib 1 (as_read x (written (weight f) (length x) srcs ! k)) c))"
proof (cases "weight f")
  case False
  have "\<exists>y arg'. fusion_loop False [] outputs (length x) (layers f) 0 (x, Caller) = Inr (y, arg')
     \<and> length y = length x \<and> length arg' = length x
     \<and> (\<forall>c<length x. y ! c = x ! c + (\<Sum>k<length srcs. contrib 1 (as_read arg' (srcs ! k)) c))
     \<and> (\<forall>c<length x. arg' ! c = x ! c
           + (\<Sum>k<length (written False (length x) srcs).
                 contrib 1 (as_read x (written False (length x) srcs ! k)) c))"
    using assms(1,2) by (intro fusion_loop_caller) auto
  then show ?thesis using False by (simp add: fusion_forward_def fusion_scale_def)
next
  case True
  define sw where "sw = map (\<lambda>v. sigmoid v * (2 / real (fusion_n f))) (w f)"
  have len: "length sw = length (layers f) + 1"
    using assms(3) True by (simp add: sw_def fusion_n_def)
  have sw_nth: "sw ! k = fusion_scale f k" if "k < length sw" for k
    using that True by (simp add: sw_def fusion_scale_def)
  define t where "t = map (\<lambda>v. (sw ! 0) *\<^sub>R v) x"
  have fwd: "fusion_forward f x outputs
           = fusion_loop True sw outputs (length x) (layers f) 0 (x, Fresh t)"
  proof -
    have ti: "tensor_index sw 0 = Inr (sw ! 0)" using len by (simp add: tensor_index_def)
    show ?thesis
      unfolding fusion_forward_def Let_def sw_def[symmetric] t_def using True ti by simp
  qed
  have "\<exists>y. fusion_loop True sw outputs (length x) (layers f) 0 (x, Fresh t) = Inr (y, x)
     \<and> length y = length x \<and>
     (\<forall>c<length x. y ! c = t ! c
          + (\<Sum>k<length srcs. contrib (if True then sw ! (0 + 1 + k) else 1) (as_read x (srcs ! k)) c))"
    using assms(1,2) len by (intro fusion_loop_fresh) (auto simp: t_def)
  then obtain y where y: "fusion_loop True sw outputs (length x) (layers f) 0 (x, Fresh t) = Inr (y, x)"
    and leny: "length y = length x"
    and nthy: "\<And>c. c < length x \<Longrightarrow> y ! c = t ! c
          + (\<Sum>k<length srcs. contrib (sw ! (0 + 1 + k)) (as_read x (srcs ! k)) c)"
    by auto
  have ls: "length srcs = length (layers f)"
    using arg_cong[OF assms(1), of length] by simp
  have "y ! c = fusion_scale f 0 *\<^sub>R x ! c
          + (\<Sum>k<length srcs. contrib (fusion_scale f (k + 1)) (as_read x (srcs ! k)) c)"
    if "c < length x" for c
  proof -
    have "(\<Sum>k<length srcs. contrib (sw ! (0 + 1 + k)) (as_read x (srcs ! k)) c)
        = (\<Sum>k<length srcs. contrib (fusion_scale f (k + 1)) (as_read x (srcs ! k)) c)"
      by (rule sum.cong) (simp_all add: sw_nth len ls)
    moreover have "t ! c = fusion_scale f 0 *\<^sub>R x ! c"
      using that len by (simp add: t_def sw_nth)
    ultimately show ?thesis using nthy[of c] that by simp
  qed
  then show ?thesis using fwd y leny True by (simp add: written_def)
qed

theorem fusion_forward_channels_witness:
  "map (py_index [Stored [10], Stored [1, 2, 3 :: real]])
       (layers \<lparr>layers = [- 1, 0], weight = True, w = [0, 0, 0]\<rparr>)
     = map Inr [Stored [1, 2, 3], Stored [10]]
   \<and> Placeholder \<notin> set [Stored [1, 2, 3 :: real], Stored [10]]
   \<and> length (w \<lparr>layers = [- 1, 0], weight = True, w = [0, 0, 0]\<rparr>)
       = fusion_n \<lparr>layers = [- 1, 0], weight = True, w = [0, 0, 0]\<rparr>
   \<and> (\<exists>y x'. fusion_forward \<lparr>layers = [- 1, 0], weight = True, w = [0, 0, 0]\<rparr> [1, 2 :: real]
            [Stored [10], Stored [1, 2, 3]] = Inr (y, x') \<and> length y = 2)"
proof -
  let ?f = "\<lparr>layers = [- 1, 0], weight = True, w = [0, 0, 0]\<rparr>"
  have h1: "map (py_index [Stored [10], Stored [1, 2, 3 :: real]]) (layers ?f)
     = map Inr [Stored [1, 2, 3], Stored [10]]"
    by (simp add: py_index_def)
  have h2: "Placeholder \<notin> set [Stored [1, 2, 3 :: real], Stored [10]]" by simp
  have h3: "weight ?f \<Longrightarrow> length (w ?f) = fusion_n ?f"
    by (simp add: fusion_n_def)
  from fusion_forward_channels[OF h1 h2 h3, of "[1, 2]"] h1 h2 h3
  show ?thesis by auto
qed

lemma fusion_forward_example:
  "fusion_forward \<lparr>layers = [- 1, 0], weight = True, w = [0, 0, 0]\<rparr> [1, 2 :: real]
     [Stored [10], Stored [1, 2, 3]] = Inr ([4, 4 / 3], [1, 2])"
  by (simp add: fusion_forward_def fusion_step_def fusion_n_def sigmoid_def tensor_index_def
      py_index_def Let_def)

lemma fusion_forward_placeholder:
  "fusion_forward \<lparr>layers = [0], weight = False, w = []\<rparr> [1, 2 :: real] [Placeholder]
     = Inl AttributeError"
  by (simp add: fusion_forward_def py_index_def Let_def)

text \<open>
  Without weights the narrower source is written into the argument object, and a later
  source that is this object is read with it: 22 = 1 + 10 + (1 + 10), and the caller's
  tensor is left as [11, 2].
\<close>

lemma fusion_forward_argument_source:
  "fusion_forward \<lparr>layers = [0, 1], weight = False, w = []\<rparr> [1, 2 :: real]
     [Stored [10], Argument] = Inr ([22, 4], [11, 2])"
  by (simp add: fusion_forward_def fusion_step_def py_index_def Let_def)

section \<open>Properties of the detection head\<close>














lemma yolo_export_class_score:
  "exported_cls (yolo_forward (yolo_init [(10, 13)] 2 (32, 32) 32 True)
      \<lparr>shape4 = (1, 7, 1, 1), elem4 = (\<lambda>b c y x. 0)\<rparr>) 0 0 = Some (1 / 4)"
  by (simp add: yolo_forward_def exported_cls_def yolo_init_def numel4_def create_grids_def
      y_na_def num_classes_output_def view_permute_def flat4_def export_out_def sigmoid_def Let_def
      meshgrid_def)

text \<open>
  A head that saw a tensor in training mode has recorded its size and built no grid; in
  inference mode the next tensor of that size finds no grid.
\<close>

lemma yolo_forward_train_then_eval:
  "(case yolo_forward (yolo_init [(10, 13)] 2 (32, 32) 32 False)
           \<lparr>shape4 = (1, 7, 1, 1), elem4 = (\<lambda>b c y x. 0)\<rparr> of
      Inr (l1, out) \<Rightarrow>
        yolo_forward (l1\<lparr>y_training := False\<rparr>) \<lparr>shape4 = (1, 7, 1, 1), elem4 = (\<lambda>b c y x. 0)\<rparr>
    | Inl e \<Rightarrow> Inl e) = Inl TypeError"
  by (simp add: yolo_forward_def yolo_init_def numel4_def create_grids_def y_na_def
      num_classes_output_def Let_def)

text \<open>
  A grid of one cell that was built for another size is broadcast: on a tensor of two
  columns the second column is decoded with the offset 0 of the only cell, not with 1.
\<close>

lemma yolo_forward_stale_grid:
  "decoded (yolo_forward
      \<lparr>y_anchors = [(10, 13)], y_stride = 32, y_classes = 2, y_nx = 2, y_ny = 1,
       y_grid = Some (meshgrid 1 1), y_training = False, y_onnx_export = False\<rparr>
      \<lparr>shape4 = (1, 7, 1, 2), elem4 = (\<lambda>b c y x. 0)\<rparr>) 0 1 0 = Some 16"
  by (simp add: yolo_forward_def decoded_def numel4_def y_na_def
      num_classes_output_def view_permute_def flat4_def decode_elem_def sigmoid_def Let_def
      meshgrid_def broadcasts_def grid_at_def)

section \<open>Properties of the weight files\<close>

subsection \<open>Bytes and items\<close>

lemma length_to_le: "length (to_le n x) = n"
  by (simp add: to_le_def)

lemma bit_of_le:
  "bit (of_le bs :: 'a::len word) k \<longleftrightarrow>
     k < LENGTH('a) \<and> k div 8 < length bs \<and> bit (bs ! (k div 8)) (k mod 8)"
proof (induction bs arbitrary: k)
  case Nil
  then show ?case by simp
next
  case (Cons b bs)
  show ?case
  proof (cases "k < 8")
    case True
    then have "k div 8 = 0" "k mod 8 = k" by simp_all
    then show ?thesis using True by (simp add: bit_or_iff bit_ucast_iff bit_push_bit_iff)
  next
    case False
    then obtain j where k: "k = j + 8" by (metis add.commute le_Suc_ex not_less)
    have d: "(j + 8) div 8 = Suc (j div 8)" "(j + 8) mod 8 = j mod 8" by simp_all
    have nb: "\<not> bit b (j + 8)" using bit_imp_le_length[of b "j + 8"] by auto
    show ?thesis
      unfolding k using Cons.IH[of j] nb
      by (auto simp add: bit_or_iff bit_ucast_iff bit_push_bit_iff d)
  qed
qed

lemma nth_to_le: "i < n \<Longrightarrow> to_le n x ! i = ucast (drop_bit (8 * i) x)"
  by (simp add: to_le_def)

lemma of_le_to_le:
  fixes x :: "'a::len word"
  assumes "LENGTH('a) \<le> 8 * n"
  shows "of_le (to_le n x) = x"
proof (rule bit_eqI)
  fix k
  assume "possible_bit TYPE('a word) k"
  then have kl: "k < LENGTH('a)" by (simp add: possible_bit_def)
  then have kn: "k div 8 < n" using assms by (simp add: less_mult_imp_div_less mult.commute)
  have e: "8 * (k div 8) + k mod 8 = k" by simp
  have m: "k mod 8 < 8" by simp
  have "bit (of_le (to_le n x) :: 'a word) k \<longleftrightarrow> k mod 8 < 8 \<and> bit x (k mod 8 + 8 * (k div 8))"
    using kl kn
    by (simp add: bit_of_le length_to_le nth_to_le bit_ucast_iff bit_drop_bit_eq del: mod_less_divisor)
  then show "bit (of_le (to_le n x) :: 'a word) k \<longleftrightarrow> bit x k"
    using m e by (simp add: add.commute)
qed

lemma to_le_of_le:
  assumes "length bs = n" and "8 * n \<le> LENGTH('a::len)"
  shows "to_le n (of_le bs :: 'a word) = bs"
proof (rule nth_equalityI)
  show "length (to_le n (of_le bs :: 'a word)) = length bs"
    using assms by (simp add: length_to_le)
next
  fix i
  assume "i < length (to_le n (of_le bs :: 'a word))"
  then have i: "i < n" by (simp add: length_to_le)
  show "to_le n (of_le bs :: 'a word) ! i = bs ! i"
  proof (rule bit_eqI)
    fix k
    assume "possible_bit TYPE(8 word) k"
    then have k: "k < 8" by (simp add: possible_bit_def)
    have lt: "8 * i + k < LENGTH('a)"
    proof -
      have "8 * i + k < 8 * i + 8" using k by simp
      also have "\<dots> = 8 * (i + 1)" by simp
      also have "\<dots> \<le> 8 * n" using i by simp
      finally show ?thesis using assms(2) by simp
    qed
    have dm: "(8 * i + k) div 8 = i" "(8 * i + k) mod 8 = k" using k by simp_all
    have dm': "(k + 8 * i) div 8 = i" "(k + 8 * i) mod 8 = k" using k by simp_all
    show "bit (to_le n (of_le bs :: 'a word) ! i) k \<longleftrightarrow> bit (bs ! i) k"
      using i k lt assms(1)
      by (simp add: nth_to_le bit_ucast_iff bit_drop_bit_eq bit_of_le dm dm' add.commute)
  qed
qed

lemma take_upt_min: "take j [0..<k] = [0..<min j k]"
proof (cases "j \<le> k")
  case True
  then show ?thesis by (simp add: min_def)
next
  case False
  then show ?thesis by (simp add: min_def)
qed

lemma concat_chunks:
  "k * n \<le> length bs \<Longrightarrow> concat (map (\<lambda>i. take n (drop (i * n) bs)) [0..<k]) = take (k * n) bs"
proof (induction k)
  case 0
  then show ?case by simp
next
  case (Suc k)
  then have "k * n \<le> length bs" by simp
  then have ih: "concat (map (\<lambda>i. take n (drop (i * n) bs)) [0..<k]) = take (k * n) bs"
    by (rule Suc.IH)
  have "take (k * n + n) bs = take (k * n) bs @ take n (drop (k * n) bs)"
    by (rule take_add)
  moreover have "Suc k * n = k * n + n" by simp
  ultimately show ?case using ih by (simp del: mult_Suc)
qed

lemma tofile_items:
  assumes "8 * n \<le> LENGTH('a::len)" and "k * n \<le> length bs"
  shows "tofile n (map (\<lambda>i. of_le (take n (drop (i * n) bs)) :: 'a word) [0..<k]) = take (k * n) bs"
proof -
  have "to_le n (of_le (take n (drop (i * n) bs)) :: 'a word) = take n (drop (i * n) bs)"
    if "i < k" for i
  proof (rule to_le_of_le[OF _ assms(1)])
    have "(i + 1) * n \<le> k * n" using that by (intro mult_le_mono1) simp
    then have "i * n + n \<le> length bs" using assms(2) by simp
    then show "length (take n (drop (i * n) bs)) = n" by simp
  qed
  then have eq: "map (to_le n) (map (\<lambda>i. of_le (take n (drop (i * n) bs)) :: 'a word) [0..<k])
      = map (\<lambda>i. take n (drop (i * n) bs)) [0..<k]"
    by simp
  show ?thesis unfolding tofile_def eq by (rule concat_chunks[OF assms(2)])
qed

lemma tofile_fromfile:
  assumes "8 * n \<le> LENGTH('a::len)"
  shows "tofile n (fst (fromfile n count bs :: 'a word list \<times> byte list))
           = take (length (fst (fromfile n count bs :: 'a word list \<times> byte list)) * n) bs"
proof -
  define k where "k = (case count of None \<Rightarrow> length bs div n | Some c \<Rightarrow> min c (length bs div n))"
  have "k \<le> length bs div n" by (simp add: k_def split: option.splits)
  then have "k * n \<le> (length bs div n) * n" by (rule mult_le_mono1)
  then have kn: "k * n \<le> length bs" by (metis div_times_less_eq_dividend le_trans)
  show ?thesis
    using tofile_items[OF assms kn]
    by (simp add: fromfile_def Let_def k_def[symmetric])
qed

lemma tofile_take_fromfile:
  assumes "8 * n \<le> LENGTH('a::len)"
  shows "tofile n (take j (fst (fromfile n count bs :: 'a word list \<times> byte list)))
           = take (min j (length (fst (fromfile n count bs :: 'a word list \<times> byte list))) * n) bs"
proof -
  define k where "k = (case count of None \<Rightarrow> length bs div n | Some c \<Rightarrow> min c (length bs div n))"
  have "k \<le> length bs div n" by (simp add: k_def split: option.splits)
  then have "k * n \<le> (length bs div n) * n" by (rule mult_le_mono1)
  then have kn: "k * n \<le> length bs" by (metis div_times_less_eq_dividend le_trans)
  have "min j k * n \<le> k * n" by (intro mult_le_mono1) simp
  then have mn: "min j k * n \<le> length bs" using kn by (rule le_trans)
  have "take j (map (\<lambda>i. of_le (take n (drop (i * n) bs)) :: 'a word) [0..<k])
      = map (\<lambda>i. of_le (take n (drop (i * n) bs))) [0..<min j k]"
    by (simp add: take_map take_upt_min)
  then show ?thesis
    using tofile_items[OF assms mn]
    by (simp add: fromfile_def Let_def k_def[symmetric])
qed

lemma fromfile_header:
  assumes "c * n \<le> length bs" and "0 < n"
  shows "length (fst (fromfile n (Some c) bs :: 'a::len word list \<times> byte list)) = c"
    and "snd (fromfile n (Some c) bs :: 'a word list \<times> byte list) = drop (c * n) bs"
proof -
  have "c \<le> length bs div n" using assms by (simp add: less_eq_div_iff_mult_less_eq)
  then have m: "min c (length bs div n) = c" by simp
  show "length (fst (fromfile n (Some c) bs :: 'a word list \<times> byte list)) = c"
    by (simp add: fromfile_def Let_def m)
  show "snd (fromfile n (Some c) bs :: 'a word list \<times> byte list) = drop (c * n) bs"
    by (simp add: fromfile_def Let_def m)
qed

subsection \<open>Loading and then saving\<close>

lemma take_drop_append:
  assumes "i \<le> j" and "j \<le> k"
  shows "take (j - i) (drop i xs) @ take (k - j) (drop j xs) = take (k - i) (drop i xs)"
proof -
  have "take ((j - i) + (k - j)) (drop i xs)
      = take (j - i) (drop i xs) @ take (k - j) (drop (j - i) (drop i xs))"
    by (rule take_add)
  moreover have "(j - i) + (k - j) = k - i" using assms by simp
  moreover have "drop (j - i) (drop i xs) = drop j xs" using assms by simp
  ultimately show ?thesis by simp
qed

lemma read_as_Inr:
  "read_as ws ptr n t = Inr s \<Longrightarrow> s = take n (drop ptr ws) \<and> length s = length t"
  by (auto simp: read_as_def Let_def split: if_splits)

lemma load_bn_saved:
  assumes "load_bn bn ws ptr = Inr (bn', p1)"
  shows "bn_bias bn' @ bn_weight bn' @ bn_running_mean bn' @ bn_running_var bn'
           = take (p1 - ptr) (drop ptr ws)"
    and "ptr \<le> p1"
proof -
  define nb where "nb = length (bn_bias bn)"
  from assms obtain b g rm rv where
    b: "read_as ws ptr nb (bn_bias bn) = Inr b"
    and g: "read_as ws (ptr + nb) nb (bn_weight bn) = Inr g"
    and rm: "read_as ws (ptr + nb + nb) nb (bn_running_mean bn) = Inr rm"
    and rv: "read_as ws (ptr + nb + nb + nb) nb (bn_running_var bn) = Inr rv"
    and bn': "bn' = bn\<lparr>bn_bias := b, bn_weight := g, bn_running_mean := rm, bn_running_var := rv\<rparr>"
    and p1: "p1 = ptr + nb + nb + nb + nb"
    by (auto simp: load_bn_def Let_def nb_def split: sum.splits)
  show "ptr \<le> p1" using p1 by simp
  have 1: "b = take ((ptr + nb) - ptr) (drop ptr ws)" using read_as_Inr[OF b] by simp
  have 2: "g = take ((ptr + nb + nb) - (ptr + nb)) (drop (ptr + nb) ws)"
    using read_as_Inr[OF g] by simp
  have 3: "rm = take ((ptr + nb + nb + nb) - (ptr + nb + nb)) (drop (ptr + nb + nb) ws)"
    using read_as_Inr[OF rm] by simp
  have 4: "rv = take (p1 - (ptr + nb + nb + nb)) (drop (ptr + nb + nb + nb) ws)"
    using read_as_Inr[OF rv] p1 by simp
  have "rm @ rv = take (p1 - (ptr + nb + nb)) (drop (ptr + nb + nb) ws)"
    unfolding 3 4 by (rule take_drop_append) (simp_all add: p1)
  then have "g @ rm @ rv = take (p1 - (ptr + nb)) (drop (ptr + nb) ws)"
    unfolding 2 using take_drop_append[of "ptr + nb" "ptr + nb + nb" p1 ws] by (simp add: p1)
  then have "b @ g @ rm @ rv = take (p1 - ptr) (drop ptr ws)"
    unfolding 1 using take_drop_append[of ptr "ptr + nb" p1 ws] by (simp add: p1)
  then show "bn_bias bn' @ bn_weight bn' @ bn_running_mean bn' @ bn_running_var bn'
           = take (p1 - ptr) (drop ptr ws)"
    by (simp add: bn')
qed

lemma load_conv_weight_saved:
  assumes "load_conv_weight conv ws p = Inr (conv', p2)"
  shows "c_weight conv' = take (p2 - p) (drop p ws)" and "p \<le> p2" and "c_bias conv' = c_bias conv"
  using assms read_as_Inr[of ws p "length (c_weight conv)" "c_weight conv"]
  by (auto simp: load_conv_weight_def Let_def split: sum.splits)

lemma load_conv_bias_saved:
  assumes "load_conv_bias conv ws p = Inr (conv', p2)"
  shows "c_bias conv' = Some (take (p2 - p) (drop p ws))" and "p \<le> p2"
  using assms
  by (auto simp: load_conv_bias_def read_as_def Let_def split: sum.splits option.splits if_splits)

lemma load_node_cases:
  assumes "load_node d m ws ptr = Inr (m', p')"
  obtains
    (other) "is_convolutional d = Inr False" "m' = m" "p' = ptr"
  | (with_bn) ls conv bn bn' p1 conv' where
      "is_convolutional d = Inr True" "batch_normalize d = Inr True" "m = Sequential ls"
      "child m 0 = Inr (Conv2d conv)" "child m 1 = Inr (BatchNorm2d bn)"
      "load_bn bn ws ptr = Inr (bn', p1)" "load_conv_weight conv ws p1 = Inr (conv', p')"
      "m' = Sequential (ls[0 := Conv2d conv', 1 := BatchNorm2d bn'])"
  | (no_bn) ls conv conv1 p1 conv' where
      "is_convolutional d = Inr True" "batch_normalize d = Inr False" "m = Sequential ls"
      "child m 0 = Inr (Conv2d conv)"
      "load_conv_bias conv ws ptr = Inr (conv1, p1)" "load_conv_weight conv1 ws p1 = Inr (conv', p')"
      "m' = Sequential (ls[0 := Conv2d conv'])"
proof (cases "is_convolutional d")
  case (Inl e)
  with assms show ?thesis by (simp add: load_node_def)
next
  case (Inr c)
  show ?thesis
  proof (cases c)
    case False
    with Inr assms other show ?thesis by (simp add: load_node_def)
  next
    case True
    with Inr have ic: "is_convolutional d = Inr True" by simp
    from assms ic obtain ls where m: "m = Sequential ls"
      by (cases m) (simp_all add: load_node_def)
    from assms ic m obtain conv where c0: "child m 0 = Inr (Conv2d conv)"
      by (cases "child m 0"; cases "projr (child m 0)") (auto simp: load_node_def)
    show ?thesis
    proof (cases "batch_normalize d")
      case (Inl e)
      with assms ic m c0 show ?thesis by (simp add: load_node_def)
    next
      case (Inr b)
      show ?thesis
      proof (cases b)
        case True
        with Inr have bnT: "batch_normalize d = Inr True" by simp
        from assms ic m c0 bnT obtain bn where c1: "child m 1 = Inr (BatchNorm2d bn)"
          by (cases "child m 1"; cases "projr (child m 1)") (auto simp: load_node_def)
        from assms ic m c0 bnT c1 obtain bn' p1 where lb: "load_bn bn ws ptr = Inr (bn', p1)"
          by (cases "load_bn bn ws ptr") (auto simp: load_node_def)
        from assms ic m c0 bnT c1 lb obtain conv' where
          lw: "load_conv_weight conv ws p1 = Inr (conv', p')"
          and m': "m' = Sequential (ls[0 := Conv2d conv', 1 := BatchNorm2d bn'])"
          by (cases "load_conv_weight conv ws p1") (auto simp: load_node_def)
        show ?thesis using with_bn[OF ic bnT m c0 c1 lb lw m'] .
      next
        case False
        with Inr have bnF: "batch_normalize d = Inr False" by simp
        from assms ic m c0 bnF obtain conv1 p1 where lb: "load_conv_bias conv ws ptr = Inr (conv1, p1)"
          by (cases "load_conv_bias conv ws ptr") (auto simp: load_node_def)
        from assms ic m c0 bnF lb obtain conv' where
          lw: "load_conv_weight conv1 ws p1 = Inr (conv', p')"
          and m': "m' = Sequential (ls[0 := Conv2d conv'])"
          by (cases "load_conv_weight conv1 ws p1") (auto simp: load_node_def)
        show ?thesis using no_bn[OF ic bnF m c0 lb lw m'] .
      qed
    qed
  qed
qed

lemma child_Sequential:
  "child (Sequential ls) i = Inr x \<longleftrightarrow> i < length ls \<and> ls ! i = x"
  by (auto simp: child_def)

lemma load_node_saved:
  assumes "load_node d m ws ptr = Inr (m', p')"
  shows "save_node d m' = Inr (take (p' - ptr) (drop ptr ws)) \<and> ptr \<le> p'"
  using assms
proof (cases rule: load_node_cases)
  case other
  then show ?thesis by (simp add: save_node_def)
next
  case (with_bn ls conv bn bn' p1 conv')
  have l: "1 < length ls" using with_bn(3,5) by (simp add: child_Sequential)
  have c0: "child m' 0 = Inr (Conv2d conv')"
    and c1: "child m' (Suc 0) = Inr (BatchNorm2d bn')"
    using l by (cases ls; auto simp: with_bn(8) child_Sequential nth_list_update)+
  have "(bn_bias bn' @ bn_weight bn' @ bn_running_mean bn' @ bn_running_var bn') @ c_weight conv'
        = take (p' - ptr) (drop ptr ws)"
    unfolding load_bn_saved(1)[OF with_bn(6)] load_conv_weight_saved(1)[OF with_bn(7)]
    using load_bn_saved(2)[OF with_bn(6)] load_conv_weight_saved(2)[OF with_bn(7)]
    by (rule take_drop_append)
  then show ?thesis
    using load_bn_saved(2)[OF with_bn(6)] load_conv_weight_saved(2)[OF with_bn(7)]
    by (simp add: save_node_def with_bn(1,2) c0 c1)
next
  case (no_bn ls conv conv1 p1 conv')
  have l: "0 < length ls" using no_bn(3,4) by (simp add: child_Sequential)
  have c0: "child m' 0 = Inr (Conv2d conv')"
    using l by (cases ls) (auto simp: no_bn(7) child_Sequential)
  have b: "c_bias conv' = Some (take (p1 - ptr) (drop ptr ws))"
    using load_conv_bias_saved(1)[OF no_bn(5)] load_conv_weight_saved(3)[OF no_bn(6)] by simp
  have "take (p1 - ptr) (drop ptr ws) @ c_weight conv' = take (p' - ptr) (drop ptr ws)"
    unfolding load_conv_weight_saved(1)[OF no_bn(6)]
    using load_conv_bias_saved(2)[OF no_bn(5)] load_conv_weight_saved(2)[OF no_bn(6)]
    by (rule take_drop_append)
  then show ?thesis
    using load_conv_bias_saved(2)[OF no_bn(5)] load_conv_weight_saved(2)[OF no_bn(6)]
    by (simp add: save_node_def no_bn(1,2) c0 b)
qed

lemma load_nodes_saved:
  assumes "load_nodes ds ms ws ptr = Inr (ms', p')"
  shows "save_nodes ds ms' = Inr (take (p' - ptr) (drop ptr ws)) \<and> ptr \<le> p'
         \<and> length ms' = min (length ds) (length ms)"
  using assms
proof (induction ds ms ws ptr arbitrary: ms' p' rule: load_nodes.induct)
  case (1 d ds m ms ws ptr)
  from "1.prems" obtain m1 p1 where n: "load_node d m ws ptr = Inr (m1, p1)"
    by (cases "load_node d m ws ptr") auto
  from "1.prems" n obtain ms1 where r: "load_nodes ds ms ws p1 = Inr (ms1, p')" and ms': "ms' = m1 # ms1"
    by (cases "load_nodes ds ms ws p1") auto
  have ih: "save_nodes ds ms1 = Inr (take (p' - p1) (drop p1 ws)) \<and> p1 \<le> p'
         \<and> length ms1 = min (length ds) (length ms)"
    using "1.IH" n r by simp
  have nd: "save_node d m1 = Inr (take (p1 - ptr) (drop ptr ws))" and le: "ptr \<le> p1"
    using load_node_saved[OF n] by simp_all
  have "take (p1 - ptr) (drop ptr ws) @ take (p' - p1) (drop p1 ws) = take (p' - ptr) (drop ptr ws)"
    using le ih by (intro take_drop_append) simp_all
  then show ?case using ih nd le by (simp add: ms')
qed simp_all

lemma save_nodes_append:
  "length ds \<le> length ms \<Longrightarrow> save_nodes ds (ms @ extra) = save_nodes ds ms"
proof (induction ds ms rule: save_nodes.induct)
  case (1 d ds m ms)
  then show ?case by (cases "save_node d m") simp_all
qed simp_all

lemma length_slice_to: "length (slice_to xs c) = length (slice_to ys c)" if "length xs = length ys"
  using that by (simp add: slice_to_def)

lemma take_length_take: "take (length (take n xs)) xs = take n xs"
proof (cases "n \<le> length xs")
  case True
  then show ?thesis by (simp add: min_def)
next
  case False
  then show ?thesis by (simp add: min_def)
qed

lemma slice_to_take: "slice_to xs c = take (length (slice_to xs c)) xs"
proof (cases "0 \<le> c")
  case True
  then show ?thesis unfolding slice_to_def using take_length_take[of "nat c" xs] by simp
next
  case False
  then show ?thesis
    unfolding slice_to_def using take_length_take[of "length xs - nat (- c)" xs] by simp
qed

lemma slice_to_loaded:
  assumes "length ms = min (length ds) (length (slice_to old c))"
  shows "\<exists>extra. slice_to (ms @ drop (length ms) old) c = ms @ extra
           \<and> (length ms < length ds \<longrightarrow> extra = [])"
proof -
  define k where "k = length (slice_to old c)"
  have kl: "k \<le> length old" by (simp add: k_def slice_to_def)
  have lm: "length ms \<le> k" using assms by (simp add: k_def)
  have len: "length (ms @ drop (length ms) old) = length old" using lm kl by simp
  have "length (slice_to (ms @ drop (length ms) old) c) = k"
    unfolding k_def by (rule length_slice_to) (rule len)
  then have "slice_to (ms @ drop (length ms) old) c = take k (ms @ drop (length ms) old)"
    using slice_to_take[of "ms @ drop (length ms) old" c] by simp
  also have "\<dots> = ms @ take (k - length ms) (drop (length ms) old)" using lm by simp
  finally have e: "slice_to (ms @ drop (length ms) old) c
      = ms @ take (k - length ms) (drop (length ms) old)" .
  have "length ms < length ds \<longrightarrow> take (k - length ms) (drop (length ms) old) = []"
    using assms by (auto simp: k_def min_def split: if_splits)
  then show ?thesis using e by blast
qed

lemma header_bytes:
  assumes "20 \<le> length content"
  shows "take 12 content @ take 8 (drop 12 content) @ take (n * 4) (drop 20 content)
           = take (20 + 4 * n) content"
proof -
  have "take (12 + 8) content = take 12 content @ take 8 (drop 12 content)" by (rule take_add)
  moreover have "take (20 + n * 4) content = take 20 content @ take (n * 4) (drop 20 content)"
    by (rule take_add)
  ultimately show ?thesis by (simp add: mult.commute)
qed

lemma load_darknet_weights_Inr:
  assumes "load_darknet_weights self file content cutoff = Inr self'"
  obtains ms ptr where
    "load_nodes (slice_to (module_define self) (forced_cutoff file cutoff))
                (slice_to (module_list self) (forced_cutoff file cutoff))
                (fst (fromfile 4 None (snd (fromfile 8 (Some 1) (snd (fromfile 4 (Some 3) content
                   :: 32 word list \<times> byte list)) :: 64 word list \<times> byte list))
                   :: 32 word list \<times> byte list)) 0 = Inr (ms, ptr)"
    "self' = self\<lparr> module_list := ms @ drop (length ms) (module_list self),
                    version := fst (fromfile 4 (Some 3) content),
                    seen := fst (fromfile 8 (Some 1) (snd (fromfile 4 (Some 3) content
                               :: 32 word list \<times> byte list))) \<rparr>"
  using assms by (auto simp: load_darknet_weights_def Let_def split: sum.splits)

text \<open>Loading keeps the size of every tensor, so a node holds as many floats as before.\<close>

lemma read_as_length: "read_as ws ptr n t = Inr s \<Longrightarrow> length s = length t"
  by (simp add: read_as_Inr)

lemma load_bn_lengths:
  assumes "load_bn bn ws ptr = Inr (bn', p1)"
  shows "length (bn_bias bn') = length (bn_bias bn)"
    and "length (bn_weight bn') = length (bn_weight bn)"
    and "length (bn_running_mean bn') = length (bn_running_mean bn)"
    and "length (bn_running_var bn') = length (bn_running_var bn)"
  using assms
  by (auto simp: load_bn_def Let_def split: sum.splits dest: read_as_length)

lemma load_conv_weight_length:
  assumes "load_conv_weight conv ws p = Inr (conv', p2)"
  shows "length (c_weight conv') = length (c_weight conv)"
  using assms by (auto simp: load_conv_weight_def Let_def split: sum.splits dest: read_as_length)

lemma load_conv_bias_length:
  assumes "load_conv_bias conv ws p = Inr (conv', p2)"
  shows "\<exists>b0 b. c_bias conv = Some b0 \<and> c_bias conv' = Some b \<and> length b = length b0"
    and "c_weight conv' = c_weight conv"
  using assms
  by (auto simp: load_conv_bias_def split: sum.splits option.splits dest: read_as_length)

lemma load_node_count:
  assumes "load_node d m ws ptr = Inr (m', p')"
  shows "\<exists>xs ys. save_node d m = Inr xs \<and> save_node d m' = Inr ys \<and> length xs = length ys"
  using assms
proof (cases rule: load_node_cases)
  case other
  then show ?thesis by (simp add: save_node_def)
next
  case (with_bn ls conv bn bn' p1 conv')
  have l: "1 < length ls" using with_bn(3,5) by (simp add: child_Sequential)
  have c0: "child m' 0 = Inr (Conv2d conv')"
    and c1: "child m' (Suc 0) = Inr (BatchNorm2d bn')"
    using l by (cases ls; auto simp: with_bn(8) child_Sequential nth_list_update)+
  have c1': "child m (Suc 0) = Inr (BatchNorm2d bn)" using with_bn(5) by simp
  show ?thesis
    using load_bn_lengths[OF with_bn(6)] load_conv_weight_length[OF with_bn(7)]
    by (simp add: save_node_def with_bn(1,2,4) c0 c1 c1')
next
  case (no_bn ls conv conv1 p1 conv')
  have l: "0 < length ls" using no_bn(3,4) by (simp add: child_Sequential)
  have c0: "child m' 0 = Inr (Conv2d conv')"
    using l by (cases ls) (auto simp: no_bn(7) child_Sequential)
  obtain b0 b where b0: "c_bias conv = Some b0" and b: "c_bias conv1 = Some b"
    and lb: "length b = length b0"
    using load_conv_bias_length(1)[OF no_bn(5)] by blast
  have b': "c_bias conv' = Some b"
    using load_conv_weight_saved(3)[OF no_bn(6)] b by simp
  have "length (c_weight conv') = length (c_weight conv)"
    using load_conv_weight_length[OF no_bn(6)] load_conv_bias_length(2)[OF no_bn(5)] by simp
  then show ?thesis
    using lb by (simp add: save_node_def no_bn(1,2,4) c0 b0 b')
qed

lemma load_nodes_count:
  assumes "load_nodes ds ms ws ptr = Inr (ms', p')"
  shows "\<exists>xs ys. save_nodes ds ms = Inr xs \<and> save_nodes ds ms' = Inr ys \<and> length xs = length ys"
  using assms
proof (induction ds ms ws ptr arbitrary: ms' p' rule: load_nodes.induct)
  case (1 d ds m ms ws ptr)
  from "1.prems" obtain m1 p1 where n: "load_node d m ws ptr = Inr (m1, p1)"
    by (cases "load_node d m ws ptr") auto
  from "1.prems" n obtain ms1 where r: "load_nodes ds ms ws p1 = Inr (ms1, p')" and ms': "ms' = m1 # ms1"
    by (cases "load_nodes ds ms ws p1") auto
  obtain xs ys where a: "save_nodes ds ms = Inr xs" "save_nodes ds ms1 = Inr ys" "length xs = length ys"
    using "1.IH" n r by blast
  obtain x1 y1 where b: "save_node d m = Inr x1" "save_node d m1 = Inr y1" "length x1 = length y1"
    using load_node_count[OF n] by blast
  show ?case using a b by (simp add: ms')
qed simp_all

lemma load_then_save_bytes:
  assumes len: "20 \<le> length content"
    and ld: "load_darknet_weights self file content cutoff = Inr self'"
  shows "\<exists>ws. save_nodes (slice_to (module_define self) (forced_cutoff file cutoff))
                         (slice_to (module_list self) (forced_cutoff file cutoff)) = Inr ws
            \<and> 20 + 4 * length ws \<le> length content
            \<and> save_darknet_weights self' path (forced_cutoff file cutoff)
               = Inr (take (20 + 4 * length ws) content)"
proof -
  let ?c = "forced_cutoff file cutoff"
  let ?v = "fromfile 4 (Some 3) content :: 32 word list \<times> byte list"
  let ?s = "fromfile 8 (Some 1) (snd ?v) :: 64 word list \<times> byte list"
  let ?w = "fromfile 4 None (snd ?s) :: 32 word list \<times> byte list"
  from ld obtain ms ptr where
    ln: "load_nodes (slice_to (module_define self) ?c) (slice_to (module_list self) ?c) (fst ?w) 0
           = Inr (ms, ptr)"
    and self': "self' = self\<lparr> module_list := ms @ drop (length ms) (module_list self),
                    version := fst ?v, seen := fst ?s \<rparr>"
    by (rule load_darknet_weights_Inr)
  have sv: "save_nodes (slice_to (module_define self) ?c) ms = Inr (take ptr (fst ?w))"
    and lms: "length ms = min (length (slice_to (module_define self) ?c))
                              (length (slice_to (module_list self) ?c))"
    using load_nodes_saved[OF ln] by simp_all
  obtain extra where sl: "slice_to (ms @ drop (length ms) (module_list self)) ?c = ms @ extra"
    and ex: "length ms < length (slice_to (module_define self) ?c) \<longrightarrow> extra = []"
    using slice_to_loaded[OF lms] by blast
  have sn: "save_nodes (slice_to (module_define self) ?c) (ms @ extra) = Inr (take ptr (fst ?w))"
  proof (cases "length ms < length (slice_to (module_define self) ?c)")
    case True
    then show ?thesis using ex sv by simp
  next
    case False
    then have "length (slice_to (module_define self) ?c) \<le> length ms" by simp
    then show ?thesis using save_nodes_append sv by metis
  qed
  have v12: "3 * 4 \<le> length content" using len by simp
  have lv: "length (fst ?v) = 3" and rv: "snd ?v = drop (3 * 4) content"
    using fromfile_header[OF v12, where 'a = 32] by simp_all
  have s8: "1 * 8 \<le> length (snd ?v)" using len rv by simp
  have ls: "length (fst ?s) = 1" and rs: "snd ?s = drop (1 * 8) (snd ?v)"
    using fromfile_header[OF s8, where 'a = 64] by simp_all
  have rs': "snd ?s = drop 20 content" using rs rv by simp
  have b1: "tofile 4 (fst ?v) = take 12 content"
    using tofile_fromfile[of 4 "Some 3" content, where 'a = 32] lv by simp
  have b2: "tofile 8 (fst ?s) = take 8 (drop 12 content)"
    using tofile_fromfile[of 8 "Some 1" "snd ?v", where 'a = 64] ls rv by simp
  define n where "n = min ptr (length (fst ?w))"
  have b3: "tofile 4 (take ptr (fst ?w)) = take (n * 4) (drop 20 content)"
    using tofile_take_fromfile[of 4 ptr None "snd ?s", where 'a = 32] rs' by (simp add: n_def)
  have "save_darknet_weights self' path ?c
      = Inr (take 12 content @ take 8 (drop 12 content) @ take (n * 4) (drop 20 content))"
  proof -
    have f: "module_define self' = module_define self"
      "module_list self' = ms @ drop (length ms) (module_list self)"
      "version self' = fst ?v" "seen self' = fst ?s"
      by (simp_all add: self')
    show ?thesis
      unfolding save_darknet_weights_def f sl sn by (simp only: sum.case b1 b2 b3)
  qed
  then have sd: "save_darknet_weights self' path ?c = Inr (take (20 + 4 * n) content)"
    using header_bytes[OF len, of n] by simp
  obtain xs ys where xs: "save_nodes (slice_to (module_define self) ?c)
                            (slice_to (module_list self) ?c) = Inr xs"
    and ys: "save_nodes (slice_to (module_define self) ?c) ms = Inr ys"
    and lxs: "length xs = length ys"
    using load_nodes_count[OF ln] by blast
  have "length ys = n" using ys sv by (auto simp: n_def)
  then have nx: "length xs = n" using lxs by simp
  have "length (fst ?w) = length (drop 20 content) div 4"
    unfolding rs' by (simp add: fromfile_def Let_def)
  then have "4 * n \<le> length content - 20" by (simp add: n_def)
  then have "20 + 4 * n \<le> length content" using len by simp
  then show ?thesis using xs sd nx by auto
qed

section \<open>Loading a weight file and saving it again\<close>





text \<open>
  \<open>convert_model_weights\<close> goes through a checkpoint that holds only the state dict, so the
  stream written back has the header of a fresh model: the images-seen counter 32000 of the
  file comes back as 0.
\<close>

lemma convert_roundtrip_resets_seen:
  "(case darknet_to_torch two_convs ''yolov3.weights'' two_convs_file of
      Inl e \<Rightarrow> Inl e
    | Inr state \<Rightarrow> torch_to_darknet [conv_spec, conv_spec] state ''yolov3.weights'')
   = Inr [0, 0, 0, 0,  2, 0, 0, 0,  5, 0, 0, 0,
          0, 0, 0, 0, 0, 0, 0, 0,
          0, 0, 128, 63,  0, 0, 0, 64,  0, 0, 64, 64,  0, 0, 128, 64]"
  by code_simp

section \<open>The layout of a weight file\<close>

lemma built_from_cases:
  assumes "built_from d m"
  obtains
    (other) "is_convolutional d = Inr False" "spec_node_floats m = []"
  | (with_bn) conv bn rest where
      "is_convolutional d = Inr True" "batch_normalize d = Inr True"
      "m = Sequential (Conv2d conv # BatchNorm2d bn # rest)" "c_bias conv = None"
  | (no_bn) conv b rest where
      "is_convolutional d = Inr True" "batch_normalize d = Inr False"
      "m = Sequential (Conv2d conv # rest)" "c_bias conv = Some b"
      "spec_node_floats m = b @ c_weight conv"
proof (cases "is_convolutional d")
  case (Inl e)
  with assms show ?thesis by (simp add: built_from_def)
next
  case (Inr c)
  show ?thesis
  proof (cases c)
    case False
    with Inr have ic: "is_convolutional d = Inr False" by simp
    have "spec_node_floats m = []"
      using assms unfolding built_from_def ic
      by (cases m rule: spec_node_floats.cases) simp_all
    with ic show ?thesis by (rule other)
  next
    case True
    with Inr have ic: "is_convolutional d = Inr True" by simp
    show ?thesis
    proof (cases "batch_normalize d")
      case (Inl e)
      with assms ic show ?thesis by (simp add: built_from_def)
    next
      case (Inr b)
      show ?thesis
      proof (cases b)
        case True
        with Inr have bnT: "batch_normalize d = Inr True" by simp
        from assms obtain conv bn rest where
          "m = Sequential (Conv2d conv # BatchNorm2d bn # rest)" "c_bias conv = None"
          unfolding built_from_def ic bnT
          by (cases m rule: spec_node_floats.cases) simp_all
        with ic bnT show ?thesis by (rule with_bn)
      next
        case False
        with Inr have bnF: "batch_normalize d = Inr False" by simp
        from assms obtain conv b rest where
          "m = Sequential (Conv2d conv # rest)" "c_bias conv = Some b"
          "spec_node_floats m = b @ c_weight conv"
          unfolding built_from_def ic bnF
          by (cases m rule: spec_node_floats.cases) auto
        with ic bnF show ?thesis by (rule no_bn)
      qed
    qed
  qed
qed

lemma save_node_built:
  assumes "built_from d m"
  shows "save_node d m = Inr (spec_node_floats m)"
  using assms
proof (cases rule: built_from_cases)
  case other
  then show ?thesis by (simp add: save_node_def)
next
  case (with_bn conv bn rest)
  then show ?thesis by (simp add: save_node_def child_def)
next
  case (no_bn conv b rest)
  then show ?thesis by (simp add: save_node_def child_def)
qed

lemma save_nodes_built:
  "list_all2 built_from ds ms \<Longrightarrow> save_nodes ds ms = Inr (concat (map spec_node_floats ms))"
  by (induction rule: list_all2_induct) (simp_all add: save_node_built)

lemma list_all2_slice_to:
  "list_all2 P xs ys \<Longrightarrow> list_all2 P (slice_to xs c) (slice_to ys c)"
  by (auto simp: slice_to_def list_all2_lengthD intro: list_all2_takeI)

lemma load_node_built:
  assumes "load_node d m ws ptr = Inr (m', p')" and "built_from d m"
  shows "built_from d m'"
  using assms(1)
proof (cases rule: load_node_cases)
  case other
  with assms(2) show ?thesis by simp
next
  case (with_bn ls conv bn bn' p1 conv')
  from assms(2) with_bn(1,2,3) obtain c0 b0 rest where
    ls: "ls = Conv2d c0 # BatchNorm2d b0 # rest" and nb: "c_bias c0 = None"
    by (cases rule: built_from_cases) auto
  have "c0 = conv" using with_bn(3,4) ls by (simp add: child_def)
  then have "c_bias conv' = None" using load_conv_weight_saved(3)[OF with_bn(7)] nb by simp
  then show ?thesis by (simp add: built_from_def with_bn(1,2,8) ls)
next
  case (no_bn ls conv conv1 p1 conv')
  from assms(2) no_bn(1,2,3) obtain c0 b0 rest where
    ls: "ls = Conv2d c0 # rest" and fl: "spec_node_floats m = b0 @ c_weight c0"
      and b0: "c_bias c0 = Some b0"
    by (cases rule: built_from_cases) auto
  have nbn: "\<And>bn r. rest \<noteq> BatchNorm2d bn # r"
    using assms(2) by (auto simp: built_from_def no_bn(1,2,3) ls)
  have "c_bias conv' \<noteq> None"
    using load_conv_bias_saved(1)[OF no_bn(5)] load_conv_weight_saved(3)[OF no_bn(6)] by simp
  then show ?thesis
    using nbn by (cases rest rule: list.exhaust) (auto simp: built_from_def no_bn(1,2,7) ls split: layer.splits list.splits)
qed

lemma load_nodes_built:
  assumes "load_nodes ds ms ws ptr = Inr (ms', p')" and "list_all2 built_from ds ms"
  shows "list_all2 built_from ds ms'"
  using assms
proof (induction ds ms ws ptr arbitrary: ms' p' rule: load_nodes.induct)
  case (1 d ds m ms ws ptr)
  from "1.prems" obtain m1 p1 where n: "load_node d m ws ptr = Inr (m1, p1)"
    by (cases "load_node d m ws ptr") auto
  from "1.prems" n obtain ms1 where r: "load_nodes ds ms ws p1 = Inr (ms1, p')" and ms': "ms' = m1 # ms1"
    by (cases "load_nodes ds ms ws p1") auto
  have "list_all2 built_from ds ms1" using "1.IH" n r "1.prems"(2) by simp
  moreover have "built_from d m1" using load_node_built[OF n] "1.prems"(2) by simp
  ultimately show ?case by (simp add: ms')
qed auto


lemma save_darknet_weights_built:
  assumes "list_all2 built_from (module_define self) (module_list self)"
  shows "save_darknet_weights self path cutoff = Inr (spec_stream self cutoff)"
proof -
  have "save_nodes (slice_to (module_define self) cutoff) (slice_to (module_list self) cutoff)
      = Inr (concat (map spec_node_floats (slice_to (module_list self) cutoff)))"
    using assms by (intro save_nodes_built list_all2_slice_to)
  then show ?thesis by (simp add: save_darknet_weights_def spec_stream_def)
qed

lemma load_darknet_weights_built:
  assumes "list_all2 built_from (module_define self) (module_list self)"
    and "load_darknet_weights self file content cutoff = Inr self'"
  shows "list_all2 built_from (module_define self') (module_list self')"
proof -
  let ?c = "forced_cutoff file cutoff"
  let ?ds = "module_define self" and ?ms = "module_list self"
  from assms(2) obtain ms' ptr ws where
    ln: "load_nodes (slice_to ?ds ?c) (slice_to ?ms ?c) ws 0 = Inr (ms', ptr)"
    and self': "module_define self' = ?ds" "module_list self' = ms' @ drop (length ms') ?ms"
    by (rule load_darknet_weights_Inr) simp
  have b: "list_all2 built_from (slice_to ?ds ?c) ms'"
    using load_nodes_built[OF ln list_all2_slice_to[OF assms(1)]] .
  define k where "k = length (slice_to ?ds ?c)"
  have lk: "length ms' = k" using list_all2_lengthD[OF b] by (simp add: k_def)
  have tk: "slice_to ?ds ?c = take k ?ds" unfolding k_def by (rule slice_to_take)
  have "list_all2 built_from (take k ?ds @ drop k ?ds) (ms' @ drop k ?ms)"
    using b assms(1) unfolding tk by (intro list_all2_appendI list_all2_dropI)
  then show ?thesis by (simp add: self' lk)
qed

text \<open>
  Claim C5, as the code has it.  For a model whose nodes are built from its LayerSpecs:
  \<open>save_darknet_weights\<close> writes the layout of the specification for the cutoff that it
  is given, whatever the name of the file; and when \<open>load_darknet_weights\<close> accepts a
  file of at least the 20 header bytes, the file starts with the layout of the loaded
  model for the cutoff that the file name forces
  (75 for \<open>darknet53.conv.74\<close>, 15 for \<open>yolov3-tiny.conv.15\<close>, else the given one): the
  header and the floats of the convolutional nodes below that cutoff, as many as these
  nodes held before.  The loaded model is again built from its LayerSpecs.
\<close>

theorem darknet_weights_layout:
  assumes "list_all2 built_from (module_define self) (module_list self)"
  shows "save_darknet_weights self path cutoff = Inr (spec_stream self cutoff)
     \<and> (20 \<le> length content \<and> load_darknet_weights self file content cutoff = Inr self' \<longrightarrow>
          (let c = forced_cutoff file cutoff;
               n = length (concat (map spec_node_floats (slice_to (module_list self) c)))
           in 20 + 4 * n \<le> length content
              \<and> spec_stream self' c = take (20 + 4 * n) content
              \<and> list_all2 built_from (module_define self') (module_list self')))"
proof (intro conjI impI)
  show "save_darknet_weights self path cutoff = Inr (spec_stream self cutoff)"
    using assms by (rule save_darknet_weights_built)
next
  assume a: "20 \<le> length content \<and> load_darknet_weights self file content cutoff = Inr self'"
  let ?c = "forced_cutoff file cutoff"
  obtain ws where ws: "save_nodes (slice_to (module_define self) ?c)
                         (slice_to (module_list self) ?c) = Inr ws"
    and le: "20 + 4 * length ws \<le> length content"
    and sv: "save_darknet_weights self' path ?c = Inr (take (20 + 4 * length ws) content)"
    using load_then_save_bytes[where path = path] a by blast
  have "save_nodes (slice_to (module_define self) ?c) (slice_to (module_list self) ?c)
      = Inr (concat (map spec_node_floats (slice_to (module_list self) ?c)))"
    using assms by (intro save_nodes_built list_all2_slice_to)
  then have n: "ws = concat (map spec_node_floats (slice_to (module_list self) ?c))"
    using ws by simp
  have b': "list_all2 built_from (module_define self') (module_list self')"
    using load_darknet_weights_built[OF assms] a by blast
  have "spec_stream self' ?c = take (20 + 4 * length ws) content"
    using save_darknet_weights_built[OF b', of path ?c] sv by simp
  then show "let c = forced_cutoff file cutoff;
               n = length (concat (map spec_node_floats (slice_to (module_list self) c)))
           in 20 + 4 * n \<le> length content
              \<and> spec_stream self' c = take (20 + 4 * n) content
              \<and> list_all2 built_from (module_define self') (module_list self')"
    using le b' unfolding n Let_def by simp
qed

lemma two_convs_built: "list_all2 built_from (module_define two_convs) (module_list two_convs)"
  by (simp add: two_convs_def conv_spec_def built_from_def is_convolutional_def
      batch_normalize_def getitem_def truthy_def)

theorem darknet_weights_layout_witness:
  "list_all2 built_from (module_define two_convs) (module_list two_convs)
   \<and> 20 \<le> length two_convs_file
   \<and> load_darknet_weights two_convs ''yolov3.weights'' two_convs_file 1 = Inr two_convs_loaded
   \<and> save_darknet_weights two_convs ''yolov3.weights'' 1 = Inr (spec_stream two_convs 1)
   \<and> spec_stream two_convs_loaded 1 = take 36 two_convs_file"
proof -
  have h1: "20 \<le> length two_convs_file" by (simp add: two_convs_file_def)
  have c: "forced_cutoff ''yolov3.weights'' 1 = 1" by (simp add: forced_cutoff_def)
  have n: "length (concat (map spec_node_floats (slice_to (module_list two_convs) 1))) = 4"
    by (simp add: two_convs_def slice_to_def)
  have ld: "load_darknet_weights two_convs ''yolov3.weights'' two_convs_file 1 = Inr two_convs_loaded"
    by code_simp
  show ?thesis
    using darknet_weights_layout[OF two_convs_built, of "''yolov3.weights''" 1 two_convs_file
        "''yolov3.weights''" two_convs_loaded] h1 ld two_convs_built
    by (simp add: c n Let_def)
qed

text \<open>
  Claim C5 as stated fails for saving: a file named \<open>yolov3-tiny.conv.15\<close> is written
  with the cutoff that was passed, here 1 (one node, 36 bytes), and not with the cutoff
  15 that loading forces for this name (both nodes, 44 bytes).
\<close>

theorem save_cutoff_not_forced_counterexample:
  "save_darknet_weights two_convs_loaded ''yolov3-tiny.conv.15'' 1 = Inr (take 36 two_convs_file)
   \<and> spec_stream two_convs_loaded (forced_cutoff ''yolov3-tiny.conv.15'' 1)
       \<noteq> take 36 two_convs_file"
proof
  show "save_darknet_weights two_convs_loaded ''yolov3-tiny.conv.15'' 1 = Inr (take 36 two_convs_file)"
    by code_simp
  have "length (spec_stream two_convs_loaded (forced_cutoff ''yolov3-tiny.conv.15'' 1)) = 44"
    by code_simp
  moreover have "length (take 36 two_convs_file) = 36" by (simp add: two_convs_file_def)
  ultimately show "spec_stream two_convs_loaded (forced_cutoff ''yolov3-tiny.conv.15'' 1)
       \<noteq> take 36 two_convs_file"
    by auto
qed

section \<open>The smart bias initialisation never applies\<close>

lemma bias_of_Inl: "bias_of v = Inl AttributeError"
  by (cases v) simp_all

text \<open>
  Claim C4.  The claim has the builder add -4.5 and \<open>ln(0.6 / (num_classes - 0.99))\<close> to
  the bias of the convolution before a detection head.  The block looks for that
  convolution in \<open>module_define\<close>, the list of LayerSpecs, where the builder keeps its
  modules in \<open>module_list\<close>: it finds a dict, and no bias.  For every list of
  LayerSpecs, every \<open>yolo\<close> block and every head the block raises, no bias is computed,
  and the warning is what is left of it.
\<close>

theorem smart_bias_never_applies:
  "isl (smart_bias specs block yolo_index l)
   \<and> smart_bias_log specs block yolo_index l
       = [''WARNING: smart bias initialization failure.'']"
proof -
  have "isl (smart_bias specs block yolo_index l)"
    by (simp add: smart_bias_def bias_of_Inl split: sum.splits)
  then show ?thesis
    by (cases "smart_bias specs block yolo_index l") (simp_all add: smart_bias_log_def)
qed

text \<open>On the small configuration the exception is the KeyError of the lookup of 0.\<close>

lemma smart_bias_example:
  "smart_bias [head_conv_spec, yolo_spec] yolo_spec 0 (yolo_init [(10, 13)] 2 (416, 416) 32 False)
     = Inl KeyError"
  by (simp add: smart_bias_def bias_owner_def bias_index_def contains_def getitem_def py_index_def
      yolo_spec_def head_conv_spec_def)

text \<open>What the claim describes, on the bias of that convolution, had the block reached it.\<close>

lemma bias_update_example:
  "bias_update (yolo_init [(10, 13)] 2 (416, 416) 32 False) [0, 0, 0, 0, 0, 0, 0]
     = (None, [0, 0, 0, 0, - 4.5, ln (0.6 / 1.01), ln (0.6 / 1.01)])"
  by (simp add: bias_update_def add_at_def yolo_init_def y_na_def num_classes_output_def Let_def
      upt_rec)

section \<open>Properties of the fusion of convolution and batch normalisation\<close>

text \<open>
  Claim C2.  The claim has the fused convolution compute what the pair computes, for every
  convolution followed by a batch normalisation.  \<open>_fuse_conv_and_bn\<close> makes the new
  convolution without the groups of the old one, so for a convolution of two groups the
  product of \<open>w_bn\<close> and \<open>w_conv\<close> (2 x 1) does not have the size of the new weight
  (2 x 2 x 1 x 1): the view raises, also through \<open>Darknet.fuse\<close>, and there is no fused
  convolution.
\<close>

theorem fuse_grouped_conv_raises:
  "fuse_conv_and_bn grouped_conv plain_bn = Inl RuntimeError
   \<and> fuse_nodes [Sequential [Conv2d grouped_conv, BatchNorm2d plain_bn, LeakyReLU]]
       = Inl RuntimeError"
proof -
  have 1: "fuse_conv_and_bn grouped_conv plain_bn = Inl RuntimeError"
    by (simp add: fuse_conv_and_bn_def grouped_conv_def plain_bn_def view_rows_def bn_scale_def
        elementwise_def mm_def diag_def Let_def upt_rec)
  then show ?thesis
    by (simp add: fuse_node_def py_index_def)
qed

text \<open>
  With one group the same pair is fused: the weight of output channel \<open>i\<close> is scaled by
  \<open>gamma / sqrt(var + eps)\<close> and the bias is \<open>beta - gamma * mean / sqrt(var + eps)\<close>.
\<close>

lemma fuse_plain_conv:
  "fuse_conv_and_bn (grouped_conv\<lparr> c_groups := 1, c_weight := [1, 2, 3, 4] \<rparr>)
      (plain_bn\<lparr> bn_weight := [2, 3], bn_bias := [5, 7], bn_running_mean := [1, 1],
                 bn_running_var := [1 - 1 / 10000, 4 - 1 / 10000] \<rparr>)
   = Inr \<lparr> c_in_channels = 2, c_out_channels = 2, c_kernel_size = (1, 1), c_stride = (1, 1),
           c_padding = (0, 0), c_groups = 1, c_weight = [2, 4, 9 / 2, 6],
           c_bias = Some [3, 11 / 2] \<rparr>"
  by (simp add: fuse_conv_and_bn_def grouped_conv_def plain_bn_def view_rows_def bn_scale_def
      b_bn_def elementwise_def mm_def diag_def Let_def upt_rec lessThan_Suc)

end
